theory Spec2Isabelle
  imports Main "HOL-Library.Word"
begin

unbundle bit_operations_syntax

section \<open>The software-emulation shim (core/edge/sw_em/generic_pcie_hal2/shim.cxx)\<close>

text \<open>
  A shallow embedding of the bookkeeping layer of \<^verbatim>\<open>CpuemShim\<close>: the buffer registry,
  the per-bank allocation path, the chunked transfer loops, the lazy launch of the device
  process, the binary-load entry and the completion poll. Every member function becomes a
  function from the shim's state to a result and the new state.

  The source's parameter \<^verbatim>\<open>size\<close> is written \<open>sz\<close>. Integers have the widths
  of the source on an LP64 target (the \<^verbatim>\<open>__aarch64__\<close> branch of the file):
  \<^verbatim>\<open>unsigned\<close> is a 32-bit word, \<^verbatim>\<open>size_t\<close>, \<^verbatim>\<open>uint64_t\<close> and pointers are
  64-bit words, \<^verbatim>\<open>unsigned short\<close> is a 16-bit word. Writes to the log stream are not
  part of the state.
\<close>

type_synonym u16 = "16 word"
type_synonym u32 = "32 word"
type_synonym u64 = "64 word"

subsection \<open>Data\<close>

text \<open>The two enumerations of xclhal2.h that the modelled functions test.\<close>

datatype xclAddressSpace =
    XCL_ADDR_SPACE_DEVICE_FLAT
  | XCL_ADDR_SPACE_DEVICE_RAM
  | XCL_ADDR_KERNEL_CTRL
  | XCL_ADDR_SPACE_DEVICE_PERFMON
  | XCL_ADDR_SPACE_DEVICE_REG
  | XCL_ADDR_SPACE_DEVICE_CHECKER

datatype xclMemoryDomains =
    XCL_MEM_HOST_RAM
  | XCL_MEM_DEVICE_RAM
  | XCL_MEM_DEVICE_BRAM
  | XCL_MEM_SVM
  | XCL_MEM_CMA
  | XCL_MEM_DEVICE_REG

text \<open>
  Directories made through \<^verbatim>\<open>systemUtil::makeSystemCall(..., CREATE)\<close>: the device
  directory and \<^verbatim>\<open>deviceDirectory/binary_<n>\<close>.
\<close>

datatype dir = DeviceDirectory | BinaryDirectory u32

text \<open>
  The messages that the modelled functions forward to the device process through the
  \<^verbatim>\<open>*_RPC_CALL\<close> macros, with the arguments the call sites pass (the \<^verbatim>\<open>handle\<close>
  argument, always \<^verbatim>\<open>this\<close>, is left out).
\<close>

datatype rpc =
    xclLoadBitstream_RPC_CALL string string dir bool
  | xclAllocDeviceBuffer_RPC_CALL u64 u64 bool
  | xclFreeDeviceBuffer_RPC_CALL u64
  | xclWriteAddrKernelCtrl_RPC_CALL xclAddressSpace u64 u64 u64
  | xclReadAddrKernelCtrl_RPC_CALL xclAddressSpace u64 u64 u64
  | xclCopyBufferHost2Device_RPC_CALL u64 u64 u32 u64 u32
  | xclCopyBufferDevice2Host_RPC_CALL u64 u64 u32 u64 u32
  | xclPollCompletion_RPC_CALL u64 "(u64 \<times> u64) list"

text \<open>
  What the device process answers to one message: the acknowledgement flag and the byte
  count that the macros copy into the caller's \<^verbatim>\<open>ack\<close> and
  \<^verbatim>\<open>numBytesProcessed\<close> where the call site declares them.
\<close>

datatype reply = Reply (ack: bool) (nbytes: u32)

text \<open>
  The device process is outside the shim: it is a parameter, a function from the number of
  messages it has received so far and the next message to its answer.
\<close>

type_synonym peer = "nat \<Rightarrow> rpc \<Rightarrow> reply"

datatype unix_socket = Unix_socket

text \<open>\<^verbatim>\<open>xclemulation::drm_xocl_bo\<close>, the record behind a buffer handle.\<close>

record drm_xocl_bo =
  bo_flags :: u32
  bo_base :: u64
  bo_size :: u64
  bo_userptr :: "u64 option"
  bo_buf :: "u64 option"
  bo_fd :: int

text \<open>\<^verbatim>\<open>xclemulation::xocl_create_bo\<close>, the argument block of \<^verbatim>\<open>xoclCreateBo\<close>.\<close>

record xocl_create_bo =
  cb_size :: u64
  cb_handle :: u32
  cb_flags :: u32

text \<open>
  One outstanding streaming request of \<^verbatim>\<open>mReqList\<close>: the request counter, the
  caller's \<^verbatim>\<open>priv_data\<close> pointer and the address-to-length map.
\<close>

type_synonym request = "u64 \<times> u64 \<times> (u64 \<times> u64) list"

text \<open>
  The members of \<^verbatim>\<open>CpuemShim\<close> that the modelled functions read or write. The type
  parameter is the state of one \<^verbatim>\<open>xclemulation::MemoryManager\<close>; \<^verbatim>\<open>children\<close>
  lists the processes forked so far, each with the \<^verbatim>\<open>debuggable\<close> flag it was
  launched with; \<^verbatim>\<open>sent\<close> is the sequence of messages forwarded on the socket;
  \<^verbatim>\<open>dirs\<close> and \<^verbatim>\<open>files\<close> are the directories and files the shim has created.
\<close>

record 'mm CpuemShim =
  sock :: "unix_socket option"
  binaryCounter :: u32
  dirs :: "dir set"
  files :: "(dir \<times> string) list"
  children :: "bool list"
  sigactions :: bool
  sent :: "rpc list"
  mLogStream_is_open :: bool
  mDDRMemoryManager :: "'mm list"
  mDDRBankCount :: u16
  mXoclObjMap :: "u32 \<rightharpoonup> drm_xocl_bo option"
  mBufferCount :: u32
  message_size :: u32
  mReqList :: "request list"

text \<open>
  Declarations of this repository that shim.cxx uses and that are not among the source
  files: the allocator of one bank (memorymanager.h), the flag decoders and constants of
  em_defines.h and shim.h, and the \<^verbatim>\<open>isDontRun\<close> switch of the configuration. The
  functions below take them as a parameter. \<^verbatim>\<open>alloc\<close> is called with the variable
  \<^verbatim>\<open>size\<close> and, by the source's comment after the call (\<^verbatim>\<open>size contains alignement +
  original size requested\<close>), may change it: \<open>mm_alloc\<close> gives the address returned, the
  value left in \<^verbatim>\<open>size\<close>, and the allocator's new state.
\<close>

record 'mm externals =
  mm_alloc :: "'mm \<Rightarrow> u64 \<Rightarrow> u64 \<times> u64 \<times> 'mm"
  mm_free :: "'mm \<Rightarrow> u64 \<Rightarrow> 'mm"
  mm_start :: "'mm \<Rightarrow> u64"
  mm_size :: "'mm \<Rightarrow> u64"
  xocl_bo_ddr_idx :: "u32 \<Rightarrow> u32"
  no_host_memory :: "u32 \<Rightarrow> bool"
  xocl_bo_host_only :: "u32 \<Rightarrow> bool"
  mNull :: u64
  mNullBO :: u32
  DDR_BUFFER_ALIGNMENT :: u64
  isDontRun :: bool

subsection \<open>Forwarding one message\<close>

text \<open>
  Modelled from the spec: the \<^verbatim>\<open>*_RPC_CALL\<close> macros are defined in a header that is
  not among the source files. Section 4.6 describes them: the message is written on the
  channel, the peer executes it, and its answer is read back.
\<close>

definition RPC_CALL :: "peer \<Rightarrow> rpc \<Rightarrow> 'mm CpuemShim \<Rightarrow> reply \<times> 'mm CpuemShim" where
  "RPC_CALL p m s = (p (length (sent s)) m, s\<lparr>sent := sent s @ [m]\<rparr>)"

subsection \<open>xclWrite and xclRead\<close>

definition xclWrite ::
  "peer \<Rightarrow> xclAddressSpace \<Rightarrow> u64 \<Rightarrow> u64 \<Rightarrow> u64 \<Rightarrow> 'mm CpuemShim \<Rightarrow> u64 \<times> 'mm CpuemShim" where
  "xclWrite p space offset hostBuf sz s =
     (if sock s = None then (sz, s)
      else if space \<noteq> XCL_ADDR_KERNEL_CTRL then (- 1, s)
      else if sz mod 4 \<noteq> 0 then (- 1, s)
      else (sz, snd (RPC_CALL p (xclWriteAddrKernelCtrl_RPC_CALL space offset hostBuf sz) s)))"

definition xclRead ::
  "peer \<Rightarrow> xclAddressSpace \<Rightarrow> u64 \<Rightarrow> u64 \<Rightarrow> u64 \<Rightarrow> 'mm CpuemShim \<Rightarrow> u64 \<times> 'mm CpuemShim" where
  "xclRead p space offset hostBuf sz s =
     (if sock s = None then (sz, s)
      else if space \<noteq> XCL_ADDR_KERNEL_CTRL then (- 1, s)
      else if sz \<noteq> 4 then (- 1, s)
      else (sz, snd (RPC_CALL p (xclReadAddrKernelCtrl_RPC_CALL space offset hostBuf sz) s)))"


subsection \<open>Launching the device process\<close>

text \<open>
  \<^verbatim>\<open>launchDeviceProcess\<close> makes the device directory and the next binary directory and
  advances \<^verbatim>\<open>binaryCounter\<close> before it looks at the socket. Only then, when there is
  no socket, it installs the signal handlers, forks the device process (unless the
  configuration says \<^verbatim>\<open>isDontRun\<close>) and creates the socket. \<^verbatim>\<open>fork\<close> is taken
  to succeed (the source asserts it). The first component of the result is the
  \<^verbatim>\<open>binaryDirectory\<close> reference parameter.
\<close>

definition launchDeviceProcess ::
  "'mm externals \<Rightarrow> bool \<Rightarrow> 'mm CpuemShim \<Rightarrow> dir \<times> 'mm CpuemShim" where
  "launchDeviceProcess ext debuggable s =
     (let binaryDirectory = BinaryDirectory (binaryCounter s);
          s1 = s\<lparr>dirs := insert binaryDirectory (insert DeviceDirectory (dirs s)),
                 binaryCounter := binaryCounter s + 1\<rparr>
      in if sock s1 \<noteq> None then (binaryDirectory, s1)
         else
           let s2 = s1\<lparr>sigactions := True\<rparr>;
               s3 = (if \<not> isDontRun ext then s2\<lparr>children := children s2 @ [debuggable]\<rparr> else s2)
           in (binaryDirectory, s3\<lparr>sock := Some Unix_socket\<rparr>))"

definition launchTempProcess :: "'mm externals \<Rightarrow> peer \<Rightarrow> 'mm CpuemShim \<Rightarrow> 'mm CpuemShim" where
  "launchTempProcess ext p s =
     (let (binaryDirectory, s1) = launchDeviceProcess ext False s;
          verbose = mLogStream_is_open s1
      in snd (RPC_CALL p (xclLoadBitstream_RPC_CALL [] [] binaryDirectory verbose) s1))"

subsection \<open>Device buffers\<close>

text \<open>
  \<^verbatim>\<open>xclAllocDeviceBuffer2\<close>. The result is the address returned, the value left in the
  reference parameter \<^verbatim>\<open>size\<close>, and the new state. The bank index is checked against
  the number of allocators before the vector is read. The size sent to the peer and left
  in the reference parameter is the one \<^verbatim>\<open>alloc\<close> leaves.
\<close>

definition xclAllocDeviceBuffer2 ::
  "'mm externals \<Rightarrow> peer \<Rightarrow> u64 \<Rightarrow> xclMemoryDomains \<Rightarrow> u32 \<Rightarrow> bool \<Rightarrow> 'mm CpuemShim
     \<Rightarrow> u64 \<times> u64 \<times> 'mm CpuemShim" where
  "xclAllocDeviceBuffer2 ext p sz domain flags noHostMemory s =
     (let s1 = (if sock s = None then launchTempProcess ext p s else s)
      in if domain \<noteq> XCL_MEM_DEVICE_RAM then (mNull ext, sz, s1)
         else
           let sz1 = (if sz = 0 then DDR_BUFFER_ALIGNMENT ext else sz)
           in if length (mDDRMemoryManager s1) \<le> unat flags then (mNull ext, sz1, s1)
              else
                let (result, sz2, mm) = mm_alloc ext (mDDRMemoryManager s1 ! unat flags) sz1;
                    s2 = s1\<lparr>mDDRMemoryManager := (mDDRMemoryManager s1)[unat flags := mm]\<rparr>
                in if result = mNull ext then (result, sz2, s2)
                   else
                     let (r, s3) = RPC_CALL p (xclAllocDeviceBuffer_RPC_CALL result sz2 noHostMemory) s2
                     in if \<not> ack r then (0, sz2, s3) else (result, sz2, s3))"

definition xclFreeDeviceBuffer :: "'mm externals \<Rightarrow> peer \<Rightarrow> u64 \<Rightarrow> 'mm CpuemShim \<Rightarrow> 'mm CpuemShim" where
  "xclFreeDeviceBuffer ext p offset s =
     (let s1 = s\<lparr>mDDRMemoryManager :=
                   map (\<lambda>i. if offset < mm_start ext i + mm_size ext i then mm_free ext i offset else i)
                     (mDDRMemoryManager s)\<rparr>
      in if sock s1 \<noteq> None then snd (RPC_CALL p (xclFreeDeviceBuffer_RPC_CALL offset) s1) else s1)"

subsection \<open>Chunked transfers\<close>

text \<open>
  The \<^verbatim>\<open>while\<close> loop shared, line for line, by \<^verbatim>\<open>xclCopyBufferHost2Device\<close> and
  \<^verbatim>\<open>xclCopyBufferDevice2Host\<close>; \<open>msg\<close> builds the message of one chunk from
  \<^verbatim>\<open>processed_bytes\<close> and \<^verbatim>\<open>c_size\<close>. \<^verbatim>\<open>processed_bytes\<close>, \<^verbatim>\<open>c_size\<close> and
  \<^verbatim>\<open>messageSize\<close> are \<^verbatim>\<open>unsigned int\<close>, \<^verbatim>\<open>size\<close> is \<^verbatim>\<open>size_t\<close>: the
  comparisons and the subtraction are done in 64 bits, the assignment to \<^verbatim>\<open>c_size\<close>
  truncates, and the addition to \<^verbatim>\<open>processed_bytes\<close> wraps at 32 bits. The answer of
  the peer to a chunk is not read by the loop. A loop that does not end has the value
  \<open>None\<close>.
\<close>

partial_function (option) copy_loop ::
  "peer \<Rightarrow> (u32 \<Rightarrow> u32 \<Rightarrow> rpc) \<Rightarrow> u32 \<Rightarrow> u64 \<Rightarrow> u32 \<Rightarrow> 'mm CpuemShim \<Rightarrow> 'mm CpuemShim option" where
  "copy_loop p msg messageSize sz processed_bytes s =
     (if ucast processed_bytes < sz then
        let c_size = (if sz - ucast processed_bytes < ucast messageSize
                      then ucast (sz - ucast processed_bytes) else messageSize);
            s1 = snd (RPC_CALL p (msg processed_bytes c_size) s)
        in copy_loop p msg messageSize sz (processed_bytes + c_size) s1
      else Some s)"

definition xclCopyBufferHost2Device ::
  "'mm externals \<Rightarrow> peer \<Rightarrow> u64 \<Rightarrow> u64 \<Rightarrow> u64 \<Rightarrow> u64 \<Rightarrow> 'mm CpuemShim
     \<Rightarrow> (u64 \<times> 'mm CpuemShim) option" where
  "xclCopyBufferHost2Device ext p dest src sz seek s =
     (let s1 = (if sock s = None then launchTempProcess ext p s else s);
          src1 = src + seek;
          dest1 = dest + seek;
          messageSize = message_size s1
      in map_option (\<lambda>s2. (sz, s2))
           (copy_loop p
              (\<lambda>processed_bytes c_size.
                 xclCopyBufferHost2Device_RPC_CALL (dest1 + ucast processed_bytes)
                   (src1 + ucast processed_bytes) c_size seek 0)
              messageSize sz 0 s1))"

definition xclCopyBufferDevice2Host ::
  "'mm externals \<Rightarrow> peer \<Rightarrow> u64 \<Rightarrow> u64 \<Rightarrow> u64 \<Rightarrow> u64 \<Rightarrow> 'mm CpuemShim
     \<Rightarrow> (u64 \<times> 'mm CpuemShim) option" where
  "xclCopyBufferDevice2Host ext p dest src sz skip s =
     (let dest1 = dest + skip;
          s1 = (if sock s = None then launchTempProcess ext p s else s);
          src1 = src + skip;
          messageSize = message_size s1
      in map_option (\<lambda>s2. (sz, s2))
           (copy_loop p
              (\<lambda>processed_bytes c_size.
                 xclCopyBufferDevice2Host_RPC_CALL (dest1 + ucast processed_bytes)
                   (src1 + ucast processed_bytes) c_size skip 0)
              messageSize sz 0 s1))"

subsection \<open>The buffer registry\<close>

definition xclGetBoByHandle :: "'mm CpuemShim \<Rightarrow> u32 \<Rightarrow> drm_xocl_bo option" where
  "xclGetBoByHandle s boHandle =
     (case mXoclObjMap s boHandle of None \<Rightarrow> None | Some bo \<Rightarrow> bo)"

definition xocl_ddr_channel_count :: "'mm CpuemShim \<Rightarrow> u16" where
  "xocl_ddr_channel_count s = mDDRBankCount s"

text \<open>
  \<^verbatim>\<open>xoclCreateBo\<close>: the result is the return value, the argument block as the function
  leaves it, and the new state. A zero size is refused first; a bank index that is not
  below the bank count becomes 0.
\<close>

definition xoclCreateBo ::
  "'mm externals \<Rightarrow> peer \<Rightarrow> xocl_create_bo \<Rightarrow> 'mm CpuemShim
     \<Rightarrow> u64 \<times> xocl_create_bo \<times> 'mm CpuemShim" where
  "xoclCreateBo ext p info s =
     (let sz = cb_size info;
          ddr = xocl_bo_ddr_idx ext (cb_flags info)
      in if sz = 0 then (- 1, info, s)
         else
           let ddr_count = (ucast (xocl_ddr_channel_count s) :: u32);
               ddr1 = (if ddr_count \<le> ddr then 0 else ddr);
               noHostMemory = (no_host_memory ext (cb_flags info) \<or> xocl_bo_host_only ext (cb_flags info));
               (base, sz1, s1) = xclAllocDeviceBuffer2 ext p sz XCL_MEM_DEVICE_RAM ddr1 noHostMemory s;
               xobj = \<lparr>bo_flags = cb_flags info, bo_base = base, bo_size = sz1,
                       bo_userptr = None, bo_buf = None, bo_fd = - 1\<rparr>
           in if base = mNull ext then (mNull ext, info, s1)
              else (0, info\<lparr>cb_handle := mBufferCount s1\<rparr>,
                    s1\<lparr>mXoclObjMap := (mXoclObjMap s1)(mBufferCount s1 \<mapsto> Some xobj),
                       mBufferCount := mBufferCount s1 + 1\<rparr>))"

definition xclAllocBO ::
  "'mm externals \<Rightarrow> peer \<Rightarrow> u64 \<Rightarrow> int \<Rightarrow> u32 \<Rightarrow> 'mm CpuemShim \<Rightarrow> u32 \<times> 'mm CpuemShim" where
  "xclAllocBO ext p sz unused flags s =
     (let info = \<lparr>cb_size = sz, cb_handle = mNullBO ext, cb_flags = flags\<rparr>;
          (result, info1, s1) = xoclCreateBo ext p info s
      in (if result \<noteq> 0 then mNullBO ext else cb_handle info1, s1))"

text \<open>\<^verbatim>\<open>xclFreeBO\<close> returns \<^verbatim>\<open>void\<close>: all a caller gets back is the state.\<close>

definition xclFreeBO :: "'mm externals \<Rightarrow> peer \<Rightarrow> u32 \<Rightarrow> 'mm CpuemShim \<Rightarrow> unit \<times> 'mm CpuemShim" where
  "xclFreeBO ext p boHandle s =
     (case mXoclObjMap s boHandle of
        None \<Rightarrow> ((), s)
      | Some None \<Rightarrow> ((), s)
      | Some (Some bo) \<Rightarrow>
          (let s1 = xclFreeDeviceBuffer ext p (bo_base bo) s
           in ((), s1\<lparr>mXoclObjMap := (mXoclObjMap s1)(boHandle := None)\<rparr>)))"

subsection \<open>Completion polling\<close>

text \<open>
  One pass of the inner \<^verbatim>\<open>while\<close> of \<^verbatim>\<open>xclPollCompletion\<close> over
  \<^verbatim>\<open>mReqList\<close>: every record is asked for; a record with
  \<^verbatim>\<open>numBytesProcessed > 0\<close> is written to \<^verbatim>\<open>comps[*actual]\<close>, counted and erased,
  the others stay (\<open>kept\<close>, in order). \<^verbatim>\<open>*actual\<close> is the length of \<open>comps\<close>.
  The pass never looks at \<^verbatim>\<open>max_compl\<close>.
\<close>

fun poll_pass ::
  "peer \<Rightarrow> request list \<Rightarrow> request list \<Rightarrow> (u64 \<times> u32) list \<Rightarrow> 'mm CpuemShim
     \<Rightarrow> request list \<times> (u64 \<times> u32) list \<times> 'mm CpuemShim" where
  "poll_pass p [] kept comps s = (kept, comps, s)"
| "poll_pass p ((reqCounter, priv_data, vaLenMap) # rest) kept comps s =
     (let (r, s1) = RPC_CALL p (xclPollCompletion_RPC_CALL reqCounter vaLenMap) s;
          numBytesProcessed = nbytes r
      in if 0 < numBytesProcessed
         then poll_pass p rest kept (comps @ [(priv_data, numBytesProcessed)]) s1
         else poll_pass p rest (kept @ [(reqCounter, priv_data, vaLenMap)]) comps s1)"

text \<open>
  The outer loop \<^verbatim>\<open>while (*actual < min_compl)\<close>. It has no other exit: the code that
  would read \<^verbatim>\<open>timeout\<close> is commented out in the source.
\<close>

partial_function (option) poll_loop ::
  "peer \<Rightarrow> int \<Rightarrow> (u64 \<times> u32) list \<Rightarrow> 'mm CpuemShim \<Rightarrow> ((u64 \<times> u32) list \<times> 'mm CpuemShim) option" where
  "poll_loop p min_compl comps s =
     (if int (length comps) < min_compl then
        (case poll_pass p (mReqList s) [] comps s of
           (kept, comps1, s1) \<Rightarrow> poll_loop p min_compl comps1 (s1\<lparr>mReqList := kept\<rparr>))
      else Some (comps, s))"

text \<open>
  \<^verbatim>\<open>xclPollCompletion\<close>: the value returned (\<^verbatim>\<open>*actual\<close>), the entries written to
  \<^verbatim>\<open>comps\<close>, and the new state; \<open>None\<close> when the call does not return.
\<close>

definition xclPollCompletion ::
  "peer \<Rightarrow> int \<Rightarrow> int \<Rightarrow> int \<Rightarrow> 'mm CpuemShim \<Rightarrow> (int \<times> (u64 \<times> u32) list \<times> 'mm CpuemShim) option" where
  "xclPollCompletion p min_compl max_compl timeout s =
     map_option (\<lambda>(comps, s1). (int (length comps), comps, s1)) (poll_loop p min_compl [] s)"

text \<open>
  The body of the outer loop run \<open>n\<close> times, without the loop test: the completions
  collected and the state at the end of the \<open>n\<close>-th pass over \<^verbatim>\<open>mReqList\<close>. It is
  used to say at the end of which pass the loop is left.
\<close>

fun poll_passes ::
  "nat \<Rightarrow> peer \<Rightarrow> (u64 \<times> u32) list \<Rightarrow> 'mm CpuemShim \<Rightarrow> (u64 \<times> u32) list \<times> 'mm CpuemShim" where
  "poll_passes 0 p comps s = (comps, s)"
| "poll_passes (Suc n) p comps s =
     (case poll_pass p (mReqList s) [] comps s of
        (kept, comps1, s1) \<Rightarrow> poll_passes n p comps1 (s1\<lparr>mReqList := kept\<rparr>))"


subsection \<open>Loading a binary container\<close>

datatype axlf_section_kind =
    BITSTREAM
  | EMBEDDED_METADATA
  | DEBUG_DATA
  | AIE_METADATA
  | ASK_GROUP_TOPOLOGY
  | EMULATION_DATA
  | CONNECTIVITY

text \<open>
  A container as the functions below read it: its leading bytes (the magic), and for each
  section kind what \<^verbatim>\<open>get_axlf_section\<close> finds, the section's offset and size.
\<close>

record xclBin =
  xclbininmemory :: "char list"
  axlf_section :: "axlf_section_kind \<Rightarrow> (u64 \<times> u64) option"

text \<open>
  \<^verbatim>\<open>memcmp(buf, lit, n) == 0\<close> for a string literal \<open>lit\<close>: the literal is followed by
  its terminating zero byte, which the comparison of 8 bytes with \<^verbatim>\<open>"xclbin0"\<close> reads.
\<close>

definition memcmp_eq :: "char list \<Rightarrow> char list \<Rightarrow> nat \<Rightarrow> bool" where
  "memcmp_eq buf lit n = (take n buf = take n (lit @ [CHR 0x00]))"

text \<open>
  What \<^verbatim>\<open>xclLoadXclBin\<close> takes from outside the modelled functions: whether the
  environment sets \<^verbatim>\<open>ENABLE_KERNEL_DEBUG\<close> to \<^verbatim>\<open>true\<close>, whether a file can be opened
  for writing, and two continuations that no property below depends on: the flow for
  containers with AIE metadata (\<^verbatim>\<open>xclLoadXclBinNewFlow\<close>), and the part of
  \<^verbatim>\<open>xclLoadXclBin\<close> that follows \<^verbatim>\<open>launchDeviceProcess\<close> for a non-null header
  (\<open>load_rest\<close>: program reset, section extraction and the bitstream messages).
\<close>

record 'mm load_env =
  ENABLE_KERNEL_DEBUG :: bool
  fopen_wb :: "dir \<Rightarrow> string \<Rightarrow> bool"
  xclLoadXclBinNewFlow :: "xclBin option \<Rightarrow> 'mm CpuemShim \<Rightarrow> int \<times> 'mm CpuemShim"
  load_rest :: "xclBin \<Rightarrow> string \<Rightarrow> dir \<Rightarrow> 'mm CpuemShim \<Rightarrow> int \<times> 'mm CpuemShim"

definition isAieEnabled :: "xclBin option \<Rightarrow> bool" where
  "isAieEnabled header =
     (case header of
        None \<Rightarrow> False
      | Some h \<Rightarrow>
          if memcmp_eq (xclbininmemory h) ''xclbin0'' 8 then False
          else if memcmp_eq (xclbininmemory h) ''xclbin2'' 7 then axlf_section h AIE_METADATA \<noteq> None
          else False)"

text \<open>
  The loop of \<^verbatim>\<open>dumpXML\<close> that appends an underscore to the file name until no file of
  that name exists.
\<close>

function foundName :: "(dir \<times> string) list \<Rightarrow> dir \<Rightarrow> string \<Rightarrow> string" where
  "foundName fs d fileLocation =
     (if (d, fileLocation) \<in> set fs then foundName fs d (fileLocation @ ''_'') else fileLocation)"
  by pat_completeness auto

termination foundName
proof (relation "measure (\<lambda>(fs, d, n). Suc (sum_list (map (length \<circ> snd) fs)) - length n)")
  show "wf (measure (\<lambda>(fs, d, n). Suc (sum_list (map (length \<circ> snd) fs)) - length n))"
    by simp
next
  fix fs :: "(dir \<times> string) list" and d :: dir and fileLocation :: string
  assume "(d, fileLocation) \<in> set fs"
  then have "length fileLocation \<le> sum_list (map (length \<circ> snd) fs)"
    by (induction fs) auto
  then show "((fs, d, fileLocation @ ''_''), fs, d, fileLocation)
      \<in> measure (\<lambda>(fs, d, n). Suc (sum_list (map (length \<circ> snd) fs)) - length n)"
    by simp
qed

declare foundName.simps [simp del]

text \<open>
  \<^verbatim>\<open>dumpXML\<close>: the return value, the \<^verbatim>\<open>fileLocation\<close> reference parameter (a name
  inside the binary directory) and the new state. The magic is checked before anything is
  created.
\<close>

definition dumpXML ::
  "'mm load_env \<Rightarrow> xclBin option \<Rightarrow> string \<Rightarrow> 'mm CpuemShim \<Rightarrow> int \<times> string \<times> 'mm CpuemShim" where
  "dumpXML env header fileLocation s =
     (case header of
        None \<Rightarrow> (0, fileLocation, s)
      | Some h \<Rightarrow>
          if memcmp_eq (xclbininmemory h) ''xclbin0'' 8 then (- 1, fileLocation, s)
          else if memcmp_eq (xclbininmemory h) ''xclbin2'' 7 then
            (case axlf_section h EMBEDDED_METADATA of
               None \<Rightarrow> (- 1, fileLocation, s)
             | Some (m_sectionOffset, m_sectionSize) \<Rightarrow>
                 if (ucast m_sectionSize :: u32) = 0 then (- 1, fileLocation, s)
                 else
                   let binDir = BinaryDirectory (binaryCounter s);
                       s1 = s\<lparr>dirs := insert binDir (insert DeviceDirectory (dirs s))\<rparr>;
                       fileLocation1 = foundName (files s1) binDir ''xmltmp''
                   in if \<not> fopen_wb env binDir fileLocation1 then (- 1, fileLocation1, s1)
                      else (0, fileLocation1, s1\<lparr>files := files s1 @ [(binDir, fileLocation1)]\<rparr>))
          else (- 1, fileLocation, s))"

text \<open>
  \<^verbatim>\<open>xclLoadXclBin\<close>. With \<^verbatim>\<open>ENABLE_KERNEL_DEBUG\<close> set, the source reads the magic
  through the header pointer without testing it: for a null header that has no defined
  result, which is the value \<open>None\<close> here.
\<close>

definition xclLoadXclBin ::
  "'mm externals \<Rightarrow> 'mm load_env \<Rightarrow> xclBin option \<Rightarrow> 'mm CpuemShim \<Rightarrow> (int \<times> 'mm CpuemShim) option" where
  "xclLoadXclBin ext env header s =
     (if isAieEnabled header then Some (xclLoadXclBinNewFlow env header s)
      else
        let (result, xmlFile, s1) = dumpXML env header [] s
        in if result \<noteq> 0 then Some (result, s1)
           else if ENABLE_KERNEL_DEBUG env \<and> header = None then None
           else
             let debuggable =
                   (ENABLE_KERNEL_DEBUG env \<and>
                    (case header of
                       None \<Rightarrow> False
                     | Some h \<Rightarrow> memcmp_eq (xclbininmemory h) ''xclbin2'' 7 \<and> axlf_section h DEBUG_DATA \<noteq> None));
                 (binaryDirectory, s2) = launchDeviceProcess ext debuggable s1
             in (case header of
                   None \<Rightarrow> Some (0, s2)
                 | Some h \<Rightarrow> Some (load_rest env h xmlFile binaryDirectory s2)))"


subsection \<open>A concrete device\<close>

text \<open>
  An instance of the absent declarations and a freshly constructed shim, on which the
  functions are evaluated in the examples below. The allocator of a bank is a bump
  allocator over \<open>(start, size, used)\<close> that rounds the size up to a multiple of 16 and
  leaves the rounded size in its argument; \<^verbatim>\<open>mNull\<close> and \<^verbatim>\<open>mNullBO\<close> are all ones,
  the bank selector is the low byte of the flags. The state is the one the constructor
  leaves (no socket, counters at 0, \<^verbatim>\<open>message_size = 0x800000\<close>) for two banks of
  64 KiB.
\<close>

type_synonym bank = "u64 \<times> u64 \<times> u64"

definition bump_alloc :: "bank \<Rightarrow> u64 \<Rightarrow> u64 \<times> u64 \<times> bank" where
  "bump_alloc b sz =
     (case b of (start, cap, used) \<Rightarrow>
        let padded = (sz + 15) div 16 * 16
        in if padded \<le> cap - used then (start + used, padded, (start, cap, used + padded))
           else (0xFFFFFFFFFFFFFFFF, padded, b))"

definition ext0 :: "bank externals" where
  "ext0 = \<lparr>mm_alloc = bump_alloc,
           mm_free = (\<lambda>b offset. b),
           mm_start = (\<lambda>b. fst b),
           mm_size = (\<lambda>b. fst (snd b)),
           xocl_bo_ddr_idx = (\<lambda>flags. flags AND 0xFF),
           no_host_memory = (\<lambda>flags. False),
           xocl_bo_host_only = (\<lambda>flags. False),
           mNull = 0xFFFFFFFFFFFFFFFF,
           mNullBO = 0xFFFFFFFF,
           DDR_BUFFER_ALIGNMENT = 0x1000,
           isDontRun = False\<rparr>"

definition shim0 :: "bank CpuemShim" where
  "shim0 = \<lparr>sock = None, binaryCounter = 0, dirs = {}, files = [], children = [],
            sigactions = False, sent = [], mLogStream_is_open = False,
            mDDRMemoryManager = [(0, 0x10000, 0), (0x10000, 0x10000, 0)],
            mDDRBankCount = 2, mXoclObjMap = Map.empty, mBufferCount = 0,
            message_size = 0x800000, mReqList = []\<rparr>"

text \<open>A peer that acknowledges every message and one that acknowledges none.\<close>

definition peer_ack :: peer where
  "peer_ack n m = Reply True 1"

definition peer_nak :: peer where
  "peer_nak n m = Reply False 0"

subsection \<open>The chunking the transfer contract describes\<close>

text \<open>
  Section 4.3 of the specification, in its own words: a transfer of \<open>S\<close> bytes is split
  into chunks of the message size \<open>M\<close>, the last one possibly shorter, forwarded in
  increasing offset order. \<open>chunks M S\<close> lists them as (offset, size): chunk \<open>i\<close>
  starts at \<open>i * M\<close>, and there are \<open>\<lceil>S / M\<rceil>\<close> of them. The loop of the source is
  compared with this list below.
\<close>

definition chunks :: "nat \<Rightarrow> nat \<Rightarrow> (nat \<times> nat) list" where
  "chunks M S = map (\<lambda>i. (i * M, min M (S - i * M))) [0..<(S + M - 1) div M]"

subsection \<open>Example states\<close>

text \<open>
  The concrete device with its socket open; with a message size of 4 bytes; with one
  registered buffer of 16 bytes at address 0 of bank 0; and with five outstanding
  streaming requests, numbered 0 to 4.
\<close>

definition shim_open :: "bank CpuemShim" where
  "shim_open = shim0\<lparr>sock := Some Unix_socket\<rparr>"

definition shim_small :: "bank CpuemShim" where
  "shim_small = shim_open\<lparr>message_size := 4\<rparr>"

definition shim_bo :: "bank CpuemShim" where
  "shim_bo = shim_open
     \<lparr>mDDRMemoryManager := [(0, 0x10000, 16), (0x10000, 0x10000, 0)],
      mXoclObjMap := [0 \<mapsto> Some \<lparr>bo_flags = 0, bo_base = 0, bo_size = 16,
                                 bo_userptr = None, bo_buf = None, bo_fd = - 1\<rparr>],
      mBufferCount := 1\<rparr>"

definition shim_reqs :: "bank CpuemShim" where
  "shim_reqs = shim_open\<lparr>mReqList :=
     [(0, 0xA0, [(0x100, 8)]), (1, 0xA1, [(0x200, 8)]), (2, 0xA2, [(0x300, 8)]),
      (3, 0xA3, [(0x400, 8)]), (4, 0xA4, [(0x500, 8)])]\<rparr>"

text \<open>
  One outstanding request, and a peer for which it has not completed when it is first
  asked for (the first message of the session) and has completed at every later message.
\<close>

definition shim_req1 :: "bank CpuemShim" where
  "shim_req1 = shim_open\<lparr>mReqList := [(7, 0xB0, [(0x100, 8)])]\<rparr>"

definition peer_late :: peer where
  "peer_late n m = (if n = 0 then Reply True 0 else Reply True 8)"

text \<open>A peer for which the requests numbered 0 and 1 have completed and no other ever does.\<close>

definition peer_first2 :: peer where
  "peer_first2 n m =
     (case m of
        xclPollCompletion_RPC_CALL reqCounter vaLenMap \<Rightarrow>
          if reqCounter < 2 then Reply True 8 else Reply True 0
      | _ \<Rightarrow> Reply True 0)"

text \<open>
  A load environment without kernel debugging in which files can be written, and two
  containers: one with the legacy magic, one with the current magic and a metadata section.
\<close>

definition env0 :: "bank load_env" where
  "env0 = \<lparr>ENABLE_KERNEL_DEBUG = False,
           fopen_wb = (\<lambda>d n. True),
           xclLoadXclBinNewFlow = (\<lambda>header s. (0, s)),
           load_rest = (\<lambda>h xmlFile binaryDirectory s. (0, s))\<rparr>"

definition legacy_xclbin :: xclBin where
  "legacy_xclbin = \<lparr>xclbininmemory = ''xclbin0'' @ [CHR 0x00], axlf_section = (\<lambda>k. None)\<rparr>"

definition good_xclbin :: xclBin where
  "good_xclbin = \<lparr>xclbininmemory = ''xclbin2'' @ [CHR 0x00],
                   axlf_section = (\<lambda>k. if k = EMBEDDED_METADATA then Some (0x100, 0x40) else None)\<rparr>"

section \<open>Properties\<close>

subsection \<open>What the launch of the device process leaves alone\<close>

lemma launchTempProcess_frame:
  "mDDRMemoryManager (launchTempProcess ext p s) = mDDRMemoryManager s"
  "mXoclObjMap (launchTempProcess ext p s) = mXoclObjMap s"
  "mBufferCount (launchTempProcess ext p s) = mBufferCount s"
  "mDDRBankCount (launchTempProcess ext p s) = mDDRBankCount s"
  "message_size (launchTempProcess ext p s) = message_size s"
  by (simp_all add: launchTempProcess_def launchDeviceProcess_def RPC_CALL_def Let_def)

lemma launchTempProcess_peer:
  "launchTempProcess ext p s = launchTempProcess ext p' s"
  by (simp add: launchTempProcess_def launchDeviceProcess_def RPC_CALL_def Let_def)

subsection \<open>The allocation path\<close>

lemma xclAllocDeviceBuffer2_registry:
  "mXoclObjMap (snd (snd (xclAllocDeviceBuffer2 ext p sz domain flags nh s))) = mXoclObjMap s"
  "mBufferCount (snd (snd (xclAllocDeviceBuffer2 ext p sz domain flags nh s))) = mBufferCount s"
  by (simp_all add: xclAllocDeviceBuffer2_def Let_def case_prod_beta launchTempProcess_frame RPC_CALL_def)

lemma xclAllocDeviceBuffer2_fail:
  assumes "sz \<noteq> 0"
      and "unat flags < length (mDDRMemoryManager s)"
      and "fst (mm_alloc ext (mDDRMemoryManager s ! unat flags) sz) = mNull ext"
  shows "fst (xclAllocDeviceBuffer2 ext p sz XCL_MEM_DEVICE_RAM flags nh s) = mNull ext"
  using assms
  by (simp add: xclAllocDeviceBuffer2_def Let_def case_prod_beta launchTempProcess_frame)


text \<open>
  C3 (as the code has it). \<^verbatim>\<open>xclAllocBO\<close> with size 0 fails for every flags value:
  \<^verbatim>\<open>xoclCreateBo\<close> returns -1 on a zero size before it reaches the allocation, so the
  handle returned is \<^verbatim>\<open>mNullBO\<close>, no buffer is registered and the state is untouched.
\<close>

theorem xclAllocBO_zero_size_fails:
  "xclAllocBO ext p 0 unused flags s = (mNullBO ext, s)"
  by (simp add: xclAllocBO_def xoclCreateBo_def)

text \<open>
  C3 as stated fails: on the concrete device a request of size 0 returns the error handle
  and registers nothing.
\<close>

theorem xclAllocBO_zero_size_example:
  "xclAllocBO ext0 peer_ack 0 0 0 shim0 = (mNullBO ext0, shim0)
   \<and> mNullBO ext0 = 0xFFFFFFFF \<and> mXoclObjMap shim0 = Map.empty"
  by (simp add: xclAllocBO_def xoclCreateBo_def ext0_def shim0_def)

text \<open>
  C5. When the allocator of the selected bank returns \<^verbatim>\<open>mNull\<close>, \<^verbatim>\<open>xclAllocBO\<close>
  returns \<^verbatim>\<open>mNullBO\<close>, and the registry and the handle counter are as before. The
  selected bank \<open>ddr\<close> is the one the flags name, or bank 0 when that index is not below
  the bank count.
\<close>

theorem xclAllocBO_alloc_failure:
  fixes s :: "'mm CpuemShim" and ext :: "'mm externals" and flags :: u32
  assumes sel: "ddr = (if ucast (mDDRBankCount s) \<le> xocl_bo_ddr_idx ext flags then 0
                       else xocl_bo_ddr_idx ext flags)"
      and bank: "unat ddr < length (mDDRMemoryManager s)"
      and fail: "fst (mm_alloc ext (mDDRMemoryManager s ! unat ddr) sz) = mNull ext"
  shows "fst (xclAllocBO ext p sz unused flags s) = mNullBO ext
       \<and> mXoclObjMap (snd (xclAllocBO ext p sz unused flags s)) = mXoclObjMap s
       \<and> mBufferCount (snd (xclAllocBO ext p sz unused flags s)) = mBufferCount s"
proof (cases "sz = 0")
  case True
  then show ?thesis by (simp add: xclAllocBO_def xoclCreateBo_def)
next
  case False
  from xclAllocDeviceBuffer2_fail [OF False bank fail]
  have "fst (xclAllocDeviceBuffer2 ext p sz XCL_MEM_DEVICE_RAM ddr
          (no_host_memory ext flags \<or> xocl_bo_host_only ext flags) s) = mNull ext" .
  then show ?thesis
    using False sel
    by (cases "ucast (mDDRBankCount s) \<le> xocl_bo_ddr_idx ext flags")
       (simp_all add: xclAllocBO_def xoclCreateBo_def xocl_ddr_channel_count_def Let_def case_prod_beta
        xclAllocDeviceBuffer2_registry)
qed

theorem xclAllocBO_alloc_failure_example:
  "fst (xclAllocBO ext0 peer_ack 0x20000 0 1 shim_bo) = 0xFFFFFFFF
   \<and> mXoclObjMap (snd (xclAllocBO ext0 peer_ack 0x20000 0 1 shim_bo)) = mXoclObjMap shim_bo
   \<and> mBufferCount (snd (xclAllocBO ext0 peer_ack 0x20000 0 1 shim_bo)) = 1"
proof -
  have sel: "(1 :: u32) = (if ucast (mDDRBankCount shim_bo) \<le> xocl_bo_ddr_idx ext0 1 then 0
                          else xocl_bo_ddr_idx ext0 1)"
    by (simp add: shim_bo_def shim_open_def shim0_def ext0_def word_le_nat_alt)
  have bank: "unat (1 :: u32) < length (mDDRMemoryManager shim_bo)"
    by (simp add: shim_bo_def)
  have fail: "fst (mm_alloc ext0 (mDDRMemoryManager shim_bo ! unat (1 :: u32)) 0x20000) = mNull ext0"
    by (simp add: shim_bo_def ext0_def bump_alloc_def)
  from xclAllocBO_alloc_failure [OF sel bank fail, of peer_ack 0]
  show ?thesis by (simp add: ext0_def shim_bo_def)
qed




text \<open>
  C7 (as the code has it). \<^verbatim>\<open>xclFreeBO\<close> on a handle that is not in the registry is a
  silent no-op: the function returns \<^verbatim>\<open>void\<close>, and the state it leaves is the state it
  found, so every registered handle keeps its record, no allocator is touched and no
  message is forwarded.
\<close>

theorem xclFreeBO_unknown_handle:
  assumes "mXoclObjMap s boHandle = None"
  shows "xclFreeBO ext p boHandle s = ((), s)"
  using assms by (simp add: xclFreeBO_def)

theorem xclFreeBO_unknown_handle_example:
  "mXoclObjMap shim_bo 3 = None \<and> xclFreeBO ext0 peer_ack 3 shim_bo = ((), shim_bo)"
proof -
  have h: "mXoclObjMap shim_bo 3 = None" by (simp add: shim_bo_def)
  from h xclFreeBO_unknown_handle [OF h, of ext0 peer_ack] show ?thesis by simp
qed

text \<open>
  C7 as stated fails in its first part: no error indication comes back. Handle 7 is not
  registered and handle 0 is; what the caller receives from freeing the unknown handle is
  what it receives from freeing the registered one, although only the second call removes
  a record.
\<close>

theorem xclFreeBO_returns_nothing:
  "mXoclObjMap shim_bo 7 = None
   \<and> mXoclObjMap shim_bo 0 \<noteq> None
   \<and> fst (xclFreeBO ext0 peer_ack 7 shim_bo) = fst (xclFreeBO ext0 peer_ack 0 shim_bo)
   \<and> snd (xclFreeBO ext0 peer_ack 7 shim_bo) = shim_bo
   \<and> mXoclObjMap (snd (xclFreeBO ext0 peer_ack 0 shim_bo)) 0 = None"
  by (simp add: xclFreeBO_def xclFreeDeviceBuffer_def RPC_CALL_def shim_bo_def shim_open_def
      shim0_def ext0_def)

subsection \<open>The device process and the binary load\<close>

text \<open>
  C9 (as the code has it). A call of \<^verbatim>\<open>launchDeviceProcess\<close> made while the socket
  exists forks no process, creates no socket and installs no handler, but it is not a
  no-op: it makes the device directory and the next binary directory and advances
  \<^verbatim>\<open>binaryCounter\<close> by one; nothing else changes. A call made while there is no socket
  creates the socket and forks exactly one process, or none when the configuration says
  \<^verbatim>\<open>isDontRun\<close>.
\<close>

theorem launchDeviceProcess_open_socket:
  "(sock s \<noteq> None \<longrightarrow>
      launchDeviceProcess ext debuggable s =
        (BinaryDirectory (binaryCounter s),
         s\<lparr>dirs := insert (BinaryDirectory (binaryCounter s)) (insert DeviceDirectory (dirs s)),
           binaryCounter := binaryCounter s + 1\<rparr>))
   \<and> (sock s = None \<longrightarrow>
      sock (snd (launchDeviceProcess ext debuggable s)) = Some Unix_socket
      \<and> children (snd (launchDeviceProcess ext debuggable s)) =
          (if isDontRun ext then children s else children s @ [debuggable])
      \<and> binaryCounter (snd (launchDeviceProcess ext debuggable s)) = binaryCounter s + 1)"
  by (simp add: launchDeviceProcess_def Let_def)

theorem launchDeviceProcess_example:
  "launchDeviceProcess ext0 True shim_open =
     (BinaryDirectory 0,
      shim_open\<lparr>dirs := {BinaryDirectory 0, DeviceDirectory}, binaryCounter := 1\<rparr>)
   \<and> sock (snd (launchDeviceProcess ext0 True shim0)) = Some Unix_socket
   \<and> children (snd (launchDeviceProcess ext0 True shim0)) = [True]"
proof -
  have o: "sock shim_open \<noteq> None" and n: "sock shim0 = None"
    and c: "binaryCounter shim_open = 0" "dirs shim_open = {}" "children shim0 = []"
      "\<not> isDontRun ext0"
    by (simp_all add: shim_open_def shim0_def ext0_def)
  from launchDeviceProcess_open_socket [of shim_open ext0 True]
    launchDeviceProcess_open_socket [of shim0 ext0 True] o n c
  show ?thesis by simp
qed

text \<open>
  C9 as stated fails: with the socket open the call still changes the session state. The
  counter goes from 0 to 1 and two directories appear.
\<close>

theorem launchDeviceProcess_not_noop:
  "sock shim_open = Some Unix_socket
   \<and> binaryCounter shim_open = 0
   \<and> binaryCounter (snd (launchDeviceProcess ext0 False shim_open)) = 1
   \<and> dirs shim_open = {}
   \<and> dirs (snd (launchDeviceProcess ext0 False shim_open)) = {BinaryDirectory 0, DeviceDirectory}
   \<and> snd (launchDeviceProcess ext0 False shim_open) \<noteq> shim_open"
proof -
  have "binaryCounter (snd (launchDeviceProcess ext0 False shim_open)) \<noteq> binaryCounter shim_open"
    by (simp add: launchDeviceProcess_def Let_def shim_open_def shim0_def)
  then have "snd (launchDeviceProcess ext0 False shim_open) \<noteq> shim_open" by auto
  then show ?thesis
    by (simp add: launchDeviceProcess_def Let_def shim_open_def shim0_def)
qed

text \<open>
  C4. A container whose first seven bytes are not \<^verbatim>\<open>xclbin2\<close> makes
  \<^verbatim>\<open>xclLoadXclBin\<close> return -1 with the state exactly as it was: no directory is made,
  no process is forked, no socket is created and no message is sent.
  \<^verbatim>\<open>isAieEnabled\<close> and \<^verbatim>\<open>dumpXML\<close> both reject the magic before
  \<^verbatim>\<open>launchDeviceProcess\<close> is reached.
\<close>

theorem xclLoadXclBin_bad_magic:
  assumes "take 7 (xclbininmemory h) \<noteq> ''xclbin2''"
  shows "xclLoadXclBin ext env (Some h) s = Some (- 1, s)"
  using assms
  by (auto simp add: xclLoadXclBin_def isAieEnabled_def dumpXML_def memcmp_eq_def)

theorem xclLoadXclBin_bad_magic_example:
  "take 7 (xclbininmemory legacy_xclbin) \<noteq> ''xclbin2''
   \<and> xclLoadXclBin ext0 env0 (Some legacy_xclbin) shim0 = Some (- 1, shim0)"
proof -
  have h: "take 7 (xclbininmemory legacy_xclbin) \<noteq> ''xclbin2''"
    by (simp add: legacy_xclbin_def)
  from h xclLoadXclBin_bad_magic [OF h, of ext0 env0 shim0] show ?thesis by simp
qed

text \<open>
  For comparison, a container with the current magic and a metadata section does reach
  the launch: one process is forked and the socket exists afterwards.
\<close>

lemma xclLoadXclBin_good_magic_example:
  "map_option (\<lambda>(r, s). (r, children s, sock s, binaryCounter s, files s))
     (xclLoadXclBin ext0 env0 (Some good_xclbin) shim0) =
   Some (0, [False], Some Unix_socket, 1, [(BinaryDirectory 0, ''xmltmp'')])"
  by (simp add: xclLoadXclBin_def isAieEnabled_def dumpXML_def memcmp_eq_def good_xclbin_def
      env0_def ext0_def shim0_def launchDeviceProcess_def foundName.simps Let_def)

subsection \<open>Register access\<close>

text \<open>
  C10. While no socket exists, \<^verbatim>\<open>xclWrite\<close> and \<^verbatim>\<open>xclRead\<close> return the
  requested size whatever the address space and the size are, and leave the whole state as
  it was: no message is forwarded and no socket is made.
\<close>

theorem xclWrite_xclRead_without_socket:
  assumes "sock s = None"
  shows "xclWrite p space offset hostBuf sz s = (sz, s)
       \<and> xclRead p space offset hostBuf sz s = (sz, s)"
  using assms by (simp add: xclWrite_def xclRead_def)

theorem xclWrite_xclRead_without_socket_example:
  "sock shim0 = None
   \<and> xclWrite peer_ack XCL_ADDR_SPACE_DEVICE_RAM 0 0 7 shim0 = (7, shim0)
   \<and> xclRead peer_ack XCL_ADDR_SPACE_DEVICE_RAM 0 0 7 shim0 = (7, shim0)"
proof -
  have h: "sock shim0 = None" by (simp add: shim0_def)
  show ?thesis
    using h xclWrite_xclRead_without_socket [OF h, of peer_ack XCL_ADDR_SPACE_DEVICE_RAM 0 0 7]
    by simp
qed

subsection \<open>Completion polling\<close>

lemma poll_pass_count:
  "poll_pass p reqs kept comps s = (kept1, comps1, s1) \<Longrightarrow>
   length kept1 + length comps1 = length kept + length comps + length reqs"
proof (induction reqs arbitrary: kept comps s)
  case Nil
  then show ?case by simp
next
  case (Cons r reqs)
  obtain reqCounter priv_data vaLenMap where r: "r = (reqCounter, priv_data, vaLenMap)"
    by (cases r) auto
  show ?case
  proof (cases "0 < nbytes (fst (RPC_CALL p (xclPollCompletion_RPC_CALL reqCounter vaLenMap) s))")
    case True
    with Cons.prems r have
      "poll_pass p reqs kept (comps @ [(priv_data, nbytes (fst (RPC_CALL p (xclPollCompletion_RPC_CALL reqCounter vaLenMap) s)))])
         (snd (RPC_CALL p (xclPollCompletion_RPC_CALL reqCounter vaLenMap) s)) = (kept1, comps1, s1)"
      by (simp add: Let_def split: prod.splits)
    from Cons.IH [OF this] show ?thesis by simp
  next
    case False
    with Cons.prems r have
      "poll_pass p reqs (kept @ [r]) comps
         (snd (RPC_CALL p (xclPollCompletion_RPC_CALL reqCounter vaLenMap) s)) = (kept1, comps1, s1)"
      by (simp add: Let_def split: prod.splits)
    from Cons.IH [OF this] show ?thesis by simp
  qed
qed

lemma poll_loop_done:
  "\<not> int (length comps) < min_compl \<Longrightarrow> poll_loop p min_compl comps s = Some (comps, s)"
  by (subst poll_loop.simps) simp

lemma poll_loop_one_pass:
  assumes "int (length comps) < min_compl"
      and "poll_pass p (mReqList s) [] comps s = (kept, comps1, s1)"
      and "min_compl \<le> int (length comps1)"
  shows "poll_loop p min_compl comps s = Some (comps1, s1\<lparr>mReqList := kept\<rparr>)"
  using assms by (subst poll_loop.simps) (simp add: poll_loop_done)

lemma poll_loop_result:
  assumes r: "poll_loop p min_compl comps s = Some y"
  shows "min_compl \<le> int (length (fst y))"
proof (rule poll_loop.raw_induct
    [where P = "\<lambda>p min_compl comps s y. min_compl \<le> int (length (fst y))", OF _ r])
  fix f :: "peer \<Rightarrow> int \<Rightarrow> (u64 \<times> u32) list \<Rightarrow> 'a CpuemShim \<Rightarrow> ((u64 \<times> u32) list \<times> 'a CpuemShim) option"
    and p min_compl comps s y
  assume IH: "\<And>p min_compl comps s y. f p min_compl comps s = Some y \<Longrightarrow> min_compl \<le> int (length (fst y))"
    and step: "(if int (length comps) < min_compl
        then case poll_pass p (mReqList s) [] comps s of
             (kept, comps1, s1) \<Rightarrow> f p min_compl comps1 (s1\<lparr>mReqList := kept\<rparr>)
        else Some (comps, s)) = Some y"
  show "min_compl \<le> int (length (fst y))"
  proof (cases "int (length comps) < min_compl")
    case True
    obtain kept comps1 s1 where pp: "poll_pass p (mReqList s) [] comps s = (kept, comps1, s1)"
      by (cases "poll_pass p (mReqList s) [] comps s") auto
    with step True have "f p min_compl comps1 (s1\<lparr>mReqList := kept\<rparr>) = Some y" by simp
    from IH [OF this] show ?thesis .
  next
    case False
    with step show ?thesis by auto
  qed
qed

lemma poll_loop_starved:
  assumes r: "poll_loop p min_compl comps s = Some y"
  shows "min_compl \<le> int (length comps + length (mReqList s))"
proof (rule poll_loop.raw_induct
    [where P = "\<lambda>p min_compl comps s y. min_compl \<le> int (length comps + length (mReqList s))", OF _ r])
  fix f :: "peer \<Rightarrow> int \<Rightarrow> (u64 \<times> u32) list \<Rightarrow> 'a CpuemShim \<Rightarrow> ((u64 \<times> u32) list \<times> 'a CpuemShim) option"
    and p min_compl comps s y
  assume IH: "\<And>p min_compl comps s y. f p min_compl comps s = Some y \<Longrightarrow>
                 min_compl \<le> int (length comps + length (mReqList s))"
    and step: "(if int (length comps) < min_compl
        then case poll_pass p (mReqList s) [] comps s of
             (kept, comps1, s1) \<Rightarrow> f p min_compl comps1 (s1\<lparr>mReqList := kept\<rparr>)
        else Some (comps, s)) = Some y"
  show "min_compl \<le> int (length comps + length (mReqList s))"
  proof (cases "int (length comps) < min_compl")
    case True
    obtain kept comps1 s1 where pp: "poll_pass p (mReqList s) [] comps s = (kept, comps1, s1)"
      by (cases "poll_pass p (mReqList s) [] comps s") auto
    with step True have "f p min_compl comps1 (s1\<lparr>mReqList := kept\<rparr>) = Some y" by simp
    from IH [OF this] poll_pass_count [OF pp] show ?thesis by simp
  next
    case False
    then show ?thesis by simp
  qed
qed

lemma poll_loop_None:
  "int (length comps + length (mReqList s)) < min_compl \<Longrightarrow> poll_loop p min_compl comps s = None"
  using poll_loop_starved [of p min_compl comps s]
  by (cases "poll_loop p min_compl comps s") auto


lemma poll_pass_stuck:
  "(\<forall>r\<in>set reqs. \<forall>n. nbytes (p n (xclPollCompletion_RPC_CALL (fst r) (snd (snd r)))) = 0) \<Longrightarrow>
   poll_pass p reqs kept comps s =
     (kept @ reqs, comps,
      s\<lparr>sent := sent s @ map (\<lambda>r. xclPollCompletion_RPC_CALL (fst r) (snd (snd r))) reqs\<rparr>)"
proof (induction reqs arbitrary: kept s)
  case Nil
  then show ?case by simp
next
  case (Cons r reqs)
  obtain reqCounter priv_data vaLenMap where r: "r = (reqCounter, priv_data, vaLenMap)"
    by (cases r) auto
  from Cons.prems r have z: "nbytes (p (length (sent s)) (xclPollCompletion_RPC_CALL reqCounter vaLenMap)) = 0"
    by simp
  from Cons.prems have rest: "\<forall>r\<in>set reqs. \<forall>n. nbytes (p n (xclPollCompletion_RPC_CALL (fst r) (snd (snd r)))) = 0"
    by simp
  show ?case
    unfolding r by (simp add: RPC_CALL_def z Cons.IH [OF rest])
qed

lemma poll_loop_stuck_Some:
  assumes r: "poll_loop p min_compl comps s = Some y"
  shows "(\<forall>r\<in>set (mReqList s). \<forall>n. nbytes (p n (xclPollCompletion_RPC_CALL (fst r) (snd (snd r)))) = 0)
         \<longrightarrow> \<not> int (length comps) < min_compl"
proof (rule poll_loop.raw_induct
    [where P = "\<lambda>p min_compl comps s y.
       (\<forall>r\<in>set (mReqList s). \<forall>n. nbytes (p n (xclPollCompletion_RPC_CALL (fst r) (snd (snd r)))) = 0)
         \<longrightarrow> \<not> int (length comps) < min_compl", OF _ r])
  fix f :: "peer \<Rightarrow> int \<Rightarrow> (u64 \<times> u32) list \<Rightarrow> 'a CpuemShim \<Rightarrow> ((u64 \<times> u32) list \<times> 'a CpuemShim) option"
    and p min_compl comps s y
  assume IH: "\<And>p min_compl comps s y. f p min_compl comps s = Some y \<Longrightarrow>
       (\<forall>r\<in>set (mReqList s). \<forall>n. nbytes (p n (xclPollCompletion_RPC_CALL (fst r) (snd (snd r)))) = 0)
         \<longrightarrow> \<not> int (length comps) < min_compl"
    and step: "(if int (length comps) < min_compl
        then case poll_pass p (mReqList s) [] comps s of
             (kept, comps1, s1) \<Rightarrow> f p min_compl comps1 (s1\<lparr>mReqList := kept\<rparr>)
        else Some (comps, s)) = Some y"
  show "(\<forall>r\<in>set (mReqList s). \<forall>n. nbytes (p n (xclPollCompletion_RPC_CALL (fst r) (snd (snd r)))) = 0)
         \<longrightarrow> \<not> int (length comps) < min_compl"
  proof (intro impI notI)
    assume z: "\<forall>r\<in>set (mReqList s). \<forall>n. nbytes (p n (xclPollCompletion_RPC_CALL (fst r) (snd (snd r)))) = 0"
      and lt: "int (length comps) < min_compl"
    let ?s1 = "s\<lparr>sent := sent s @ map (\<lambda>r. xclPollCompletion_RPC_CALL (fst r) (snd (snd r))) (mReqList s)\<rparr>"
    from step lt poll_pass_stuck [OF z, of "[]" comps s]
    have "f p min_compl comps (?s1\<lparr>mReqList := mReqList s\<rparr>) = Some y" by simp
    from IH [OF this] z lt show False by simp
  qed
qed

lemma poll_loop_stuck:
  "\<forall>r\<in>set (mReqList s). \<forall>n. nbytes (p n (xclPollCompletion_RPC_CALL (fst r) (snd (snd r)))) = 0 \<Longrightarrow>
   int (length comps) < min_compl \<Longrightarrow> poll_loop p min_compl comps s = None"
  using poll_loop_stuck_Some [of p min_compl comps s]
  by (cases "poll_loop p min_compl comps s") auto


lemma poll_passes_Suc:
  "poll_pass p (mReqList s) [] comps s = (kept, comps1, s1) \<Longrightarrow>
   poll_passes (Suc n) p comps s = poll_passes n p comps1 (s1\<lparr>mReqList := kept\<rparr>)"
  by simp

lemma poll_loop_passes:
  "(\<forall>k<n. int (length (fst (poll_passes k p comps s))) < min_compl) \<Longrightarrow>
   min_compl \<le> int (length (fst (poll_passes n p comps s))) \<Longrightarrow>
   poll_loop p min_compl comps s = Some (poll_passes n p comps s)"
proof (induction n arbitrary: comps s)
  case 0
  then show ?case by (simp add: poll_loop_done)
next
  case (Suc n)
  obtain kept comps1 s1 where pp: "poll_pass p (mReqList s) [] comps s = (kept, comps1, s1)"
    by (cases "poll_pass p (mReqList s) [] comps s") auto
  from Suc.prems(1) have lt: "int (length comps) < min_compl" by (auto dest: spec [of _ 0])
  have before: "\<forall>k<n. int (length (fst (poll_passes k p comps1 (s1\<lparr>mReqList := kept\<rparr>)))) < min_compl"
  proof (intro allI impI)
    fix k assume "k < n"
    then have "Suc k < Suc n" by simp
    with Suc.prems(1) have "int (length (fst (poll_passes (Suc k) p comps s))) < min_compl" by blast
    then show "int (length (fst (poll_passes k p comps1 (s1\<lparr>mReqList := kept\<rparr>)))) < min_compl"
      by (simp only: poll_passes_Suc [OF pp])
  qed
  have after: "min_compl \<le> int (length (fst (poll_passes n p comps1 (s1\<lparr>mReqList := kept\<rparr>))))"
    using Suc.prems(2) by (simp only: poll_passes_Suc [OF pp])
  have "poll_loop p min_compl comps s = poll_loop p min_compl comps1 (s1\<lparr>mReqList := kept\<rparr>)"
    using lt pp by (subst poll_loop.simps) simp
  also have "\<dots> = Some (poll_passes n p comps1 (s1\<lparr>mReqList := kept\<rparr>))"
    by (rule Suc.IH [OF before after])
  finally show ?case by (simp only: poll_passes_Suc [OF pp])
qed

lemma poll_loop_Some_passes:
  assumes r: "poll_loop p min_compl comps s = Some y"
  shows "\<exists>n. (\<forall>k<n. int (length (fst (poll_passes k p comps s))) < min_compl)
             \<and> min_compl \<le> int (length (fst (poll_passes n p comps s)))
             \<and> y = poll_passes n p comps s"
proof (rule poll_loop.raw_induct
    [where P = "\<lambda>p min_compl comps s y.
       \<exists>n. (\<forall>k<n. int (length (fst (poll_passes k p comps s))) < min_compl)
             \<and> min_compl \<le> int (length (fst (poll_passes n p comps s)))
             \<and> y = poll_passes n p comps s", OF _ r])
  fix f :: "peer \<Rightarrow> int \<Rightarrow> (u64 \<times> u32) list \<Rightarrow> 'a CpuemShim \<Rightarrow> ((u64 \<times> u32) list \<times> 'a CpuemShim) option"
    and p min_compl comps s y
  assume IH: "\<And>p min_compl comps s y. f p min_compl comps s = Some y \<Longrightarrow>
       \<exists>n. (\<forall>k<n. int (length (fst (poll_passes k p comps s))) < min_compl)
             \<and> min_compl \<le> int (length (fst (poll_passes n p comps s)))
             \<and> y = poll_passes n p comps s"
    and step: "(if int (length comps) < min_compl
        then case poll_pass p (mReqList s) [] comps s of
             (kept, comps1, s1) \<Rightarrow> f p min_compl comps1 (s1\<lparr>mReqList := kept\<rparr>)
        else Some (comps, s)) = Some y"
  show "\<exists>n. (\<forall>k<n. int (length (fst (poll_passes k p comps s))) < min_compl)
             \<and> min_compl \<le> int (length (fst (poll_passes n p comps s)))
             \<and> y = poll_passes n p comps s"
  proof (cases "int (length comps) < min_compl")
    case True
    obtain kept comps1 s1 where pp: "poll_pass p (mReqList s) [] comps s = (kept, comps1, s1)"
      by (cases "poll_pass p (mReqList s) [] comps s") auto
    with step True have "f p min_compl comps1 (s1\<lparr>mReqList := kept\<rparr>) = Some y" by simp
    from IH [OF this] obtain n where
      b: "\<forall>k<n. int (length (fst (poll_passes k p comps1 (s1\<lparr>mReqList := kept\<rparr>)))) < min_compl"
      and a: "min_compl \<le> int (length (fst (poll_passes n p comps1 (s1\<lparr>mReqList := kept\<rparr>))))"
      and y: "y = poll_passes n p comps1 (s1\<lparr>mReqList := kept\<rparr>)"
      by blast
    have "\<forall>k<Suc n. int (length (fst (poll_passes k p comps s))) < min_compl"
    proof (intro allI impI)
      fix k assume k: "k < Suc n"
      show "int (length (fst (poll_passes k p comps s))) < min_compl"
      proof (cases k)
        case 0
        with True show ?thesis by simp
      next
        case (Suc j)
        with k have "j < n" by simp
        with b have "int (length (fst (poll_passes j p comps1 (s1\<lparr>mReqList := kept\<rparr>)))) < min_compl"
          by blast
        then show ?thesis unfolding Suc by (simp only: poll_passes_Suc [OF pp])
      qed
    qed
    moreover have "min_compl \<le> int (length (fst (poll_passes (Suc n) p comps s)))"
      using a by (simp only: poll_passes_Suc [OF pp])
    moreover have "y = poll_passes (Suc n) p comps s"
      using y by (simp only: poll_passes_Suc [OF pp])
    ultimately show ?thesis by blast
  next
    case False
    with step have "y = poll_passes 0 p comps s" by auto
    moreover from False have "min_compl \<le> int (length (fst (poll_passes 0 p comps s)))" by simp
    ultimately show ?thesis by blast
  qed
qed

lemma poll_loop_never:
  "(\<forall>n. int (length (fst (poll_passes n p comps s))) < min_compl) \<Longrightarrow>
   poll_loop p min_compl comps s = None"
proof (cases "poll_loop p min_compl comps s")
  case None
  then show ?thesis .
next
  case (Some y)
  assume never: "\<forall>n. int (length (fst (poll_passes n p comps s))) < min_compl"
  from poll_loop_Some_passes [OF Some] obtain n where
    "min_compl \<le> int (length (fst (poll_passes n p comps s)))" by blast
  with never have False by (auto simp: not_less [symmetric])
  then show ?thesis ..
qed

text \<open>
  C1 (as the code has it). \<^verbatim>\<open>xclPollCompletion\<close> reads neither \<^verbatim>\<open>max_compl\<close> nor
  \<^verbatim>\<open>timeout\<close>. Whenever it returns, it returns at least \<^verbatim>\<open>min_compl\<close>
  completions, as many as it has written to \<^verbatim>\<open>comps\<close>. With \<^verbatim>\<open>min_compl \<le> 0\<close> it
  returns 0 at once. It returns at the end of the first pass over the outstanding
  requests that leaves at least \<^verbatim>\<open>min_compl\<close> completions collected, be it the first
  pass of the call or a later one, with everything collected up to then: if fewer than
  \<^verbatim>\<open>min_compl\<close> were collected at the end of each of the passes before the \<open>n\<close>-th and
  at least \<^verbatim>\<open>min_compl\<close> at the end of the \<open>n\<close>-th, the call returns what
  \<open>poll_passes n\<close> gives; and every call that returns has returned in this way. It
  does not return at all when no pass ever leaves \<^verbatim>\<open>min_compl\<close> completions
  collected; so when fewer than \<^verbatim>\<open>min_compl\<close> requests are outstanding, or when the
  peer reports none of the outstanding requests complete.
\<close>

theorem xclPollCompletion_ignores_max_and_timeout:
  "xclPollCompletion p min_compl max_compl timeout s = xclPollCompletion p min_compl max_compl' timeout' s
   \<and> (\<forall>actual comps s'. xclPollCompletion p min_compl max_compl timeout s = Some (actual, comps, s')
        \<longrightarrow> min_compl \<le> actual \<and> actual = int (length comps))
   \<and> (min_compl \<le> 0 \<longrightarrow> xclPollCompletion p min_compl max_compl timeout s = Some (0, [], s))
   \<and> (0 < min_compl \<longrightarrow>
        (\<forall>kept comps1 s1. poll_pass p (mReqList s) [] [] s = (kept, comps1, s1) \<longrightarrow>
           min_compl \<le> int (length comps1) \<longrightarrow>
           xclPollCompletion p min_compl max_compl timeout s =
             Some (int (length comps1), comps1, s1\<lparr>mReqList := kept\<rparr>)))
   \<and> (int (length (mReqList s)) < min_compl \<longrightarrow>
        xclPollCompletion p min_compl max_compl timeout s = None)
   \<and> (0 < min_compl \<longrightarrow>
        (\<forall>r\<in>set (mReqList s). \<forall>n. nbytes (p n (xclPollCompletion_RPC_CALL (fst r) (snd (snd r)))) = 0) \<longrightarrow>
        xclPollCompletion p min_compl max_compl timeout s = None)
   \<and> (\<forall>n. (\<forall>k<n. int (length (fst (poll_passes k p [] s))) < min_compl) \<longrightarrow>
            min_compl \<le> int (length (fst (poll_passes n p [] s))) \<longrightarrow>
            xclPollCompletion p min_compl max_compl timeout s =
              Some (int (length (fst (poll_passes n p [] s))),
                    fst (poll_passes n p [] s), snd (poll_passes n p [] s)))
   \<and> (\<forall>actual comps s'. xclPollCompletion p min_compl max_compl timeout s = Some (actual, comps, s') \<longrightarrow>
        (\<exists>n. (\<forall>k<n. int (length (fst (poll_passes k p [] s))) < min_compl)
             \<and> min_compl \<le> int (length (fst (poll_passes n p [] s)))
             \<and> (comps, s') = poll_passes n p [] s))
   \<and> ((\<forall>n. int (length (fst (poll_passes n p [] s))) < min_compl) \<longrightarrow>
        xclPollCompletion p min_compl max_compl timeout s = None)"
proof (intro conjI allI impI)
  show "xclPollCompletion p min_compl max_compl timeout s = xclPollCompletion p min_compl max_compl' timeout' s"
    by (simp add: xclPollCompletion_def)
next
  fix actual comps s'
  assume a: "xclPollCompletion p min_compl max_compl timeout s = Some (actual, comps, s')"
  then have "poll_loop p min_compl [] s = Some (comps, s')" and l: "actual = int (length comps)"
    by (auto simp: xclPollCompletion_def)
  from poll_loop_result [OF this(1)] l show "min_compl \<le> actual" by simp
  from l show "actual = int (length comps)" .
next
  assume "min_compl \<le> 0"
  then show "xclPollCompletion p min_compl max_compl timeout s = Some (0, [], s)"
    by (simp add: xclPollCompletion_def poll_loop_done)
next
  fix kept comps1 s1
  assume "0 < min_compl" "poll_pass p (mReqList s) [] [] s = (kept, comps1, s1)"
    "min_compl \<le> int (length comps1)"
  then show "xclPollCompletion p min_compl max_compl timeout s =
             Some (int (length comps1), comps1, s1\<lparr>mReqList := kept\<rparr>)"
    by (simp add: xclPollCompletion_def poll_loop_one_pass)
next
  assume "int (length (mReqList s)) < min_compl"
  then show "xclPollCompletion p min_compl max_compl timeout s = None"
    by (simp add: xclPollCompletion_def poll_loop_None)
next
  assume "0 < min_compl"
    "\<forall>r\<in>set (mReqList s). \<forall>n. nbytes (p n (xclPollCompletion_RPC_CALL (fst r) (snd (snd r)))) = 0"
  then show "xclPollCompletion p min_compl max_compl timeout s = None"
    by (simp add: xclPollCompletion_def poll_loop_stuck)
next
  fix n
  assume "\<forall>k<n. int (length (fst (poll_passes k p [] s))) < min_compl"
    and "min_compl \<le> int (length (fst (poll_passes n p [] s)))"
  from poll_loop_passes [OF this]
  show "xclPollCompletion p min_compl max_compl timeout s =
          Some (int (length (fst (poll_passes n p [] s))),
                fst (poll_passes n p [] s), snd (poll_passes n p [] s))"
    by (simp add: xclPollCompletion_def case_prod_beta)
next
  fix actual comps s'
  assume "xclPollCompletion p min_compl max_compl timeout s = Some (actual, comps, s')"
  then have "poll_loop p min_compl [] s = Some (comps, s')"
    by (auto simp: xclPollCompletion_def)
  from poll_loop_Some_passes [OF this]
  show "\<exists>n. (\<forall>k<n. int (length (fst (poll_passes k p [] s))) < min_compl)
             \<and> min_compl \<le> int (length (fst (poll_passes n p [] s)))
             \<and> (comps, s') = poll_passes n p [] s" .
next
  assume "\<forall>n. int (length (fst (poll_passes n p [] s))) < min_compl"
  then show "xclPollCompletion p min_compl max_compl timeout s = None"
    by (simp add: xclPollCompletion_def poll_loop_never)
qed

text \<open>
  Two runs. In the scenario of the specification, five requests are outstanding, of
  which two have completed, with \<^verbatim>\<open>min = 2\<close> and \<^verbatim>\<open>max = 4\<close>: the call returns 2
  after one pass that has asked for all five. With one request that has not completed
  when first asked for and \<^verbatim>\<open>min = 1\<close>, the call makes a second pass and returns 1 at
  its end, having asked for the request twice.
\<close>

theorem xclPollCompletion_first_and_second_pass:
  "xclPollCompletion peer_first2 2 4 1000 shim_reqs =
     Some (2, [(0xA0, 8), (0xA1, 8)],
           shim_reqs\<lparr>sent := [xclPollCompletion_RPC_CALL 0 [(0x100, 8)], xclPollCompletion_RPC_CALL 1 [(0x200, 8)],
                      xclPollCompletion_RPC_CALL 2 [(0x300, 8)], xclPollCompletion_RPC_CALL 3 [(0x400, 8)],
                      xclPollCompletion_RPC_CALL 4 [(0x500, 8)]],
             mReqList := [(2, 0xA2, [(0x300, 8)]), (3, 0xA3, [(0x400, 8)]), (4, 0xA4, [(0x500, 8)])]\<rparr>)
   \<and> xclPollCompletion peer_late 1 1 1000 shim_req1 =
     Some (1, [(0xB0, 8)],
           shim_req1\<lparr>sent := [xclPollCompletion_RPC_CALL 7 [(0x100, 8)], xclPollCompletion_RPC_CALL 7 [(0x100, 8)]],
             mReqList := []\<rparr>)"
proof
  have pp: "poll_pass peer_first2 (mReqList shim_reqs) [] [] shim_reqs =
      ([(2, 0xA2, [(0x300, 8)]), (3, 0xA3, [(0x400, 8)]), (4, 0xA4, [(0x500, 8)])],
       [(0xA0, 8), (0xA1, 8)],
       shim_reqs\<lparr>sent := [xclPollCompletion_RPC_CALL 0 [(0x100, 8)], xclPollCompletion_RPC_CALL 1 [(0x200, 8)],
                      xclPollCompletion_RPC_CALL 2 [(0x300, 8)], xclPollCompletion_RPC_CALL 3 [(0x400, 8)],
                      xclPollCompletion_RPC_CALL 4 [(0x500, 8)]]\<rparr>)"
    by (simp add: RPC_CALL_def peer_first2_def shim_reqs_def shim_open_def shim0_def)
  from xclPollCompletion_ignores_max_and_timeout [of peer_first2 2 4 1000 shim_reqs] pp
  show "xclPollCompletion peer_first2 2 4 1000 shim_reqs =
     Some (2, [(0xA0, 8), (0xA1, 8)],
           shim_reqs\<lparr>sent := [xclPollCompletion_RPC_CALL 0 [(0x100, 8)], xclPollCompletion_RPC_CALL 1 [(0x200, 8)],
                      xclPollCompletion_RPC_CALL 2 [(0x300, 8)], xclPollCompletion_RPC_CALL 3 [(0x400, 8)],
                      xclPollCompletion_RPC_CALL 4 [(0x500, 8)]],
             mReqList := [(2, 0xA2, [(0x300, 8)]), (3, 0xA3, [(0x400, 8)]), (4, 0xA4, [(0x500, 8)])]\<rparr>)"
    by simp
next
  have p0: "poll_passes 0 peer_late [] shim_req1 = ([], shim_req1)" by simp
  have p1: "poll_passes (Suc 0) peer_late [] shim_req1 =
      ([], shim_req1\<lparr>sent := [xclPollCompletion_RPC_CALL 7 [(0x100, 8)]]\<rparr>)"
    by (simp add: RPC_CALL_def peer_late_def shim_req1_def shim_open_def shim0_def)
  have p2: "poll_passes (Suc (Suc 0)) peer_late [] shim_req1 =
      ([(0xB0, 8)],
       shim_req1\<lparr>sent := [xclPollCompletion_RPC_CALL 7 [(0x100, 8)], xclPollCompletion_RPC_CALL 7 [(0x100, 8)]],
         mReqList := []\<rparr>)"
    by (simp add: RPC_CALL_def peer_late_def shim_req1_def shim_open_def shim0_def)
  have before: "\<forall>k<Suc (Suc 0). int (length (fst (poll_passes k peer_late [] shim_req1))) < 1"
    by (simp del: poll_passes.simps add: less_Suc_eq p0 p1)
  have after: "1 \<le> int (length (fst (poll_passes (Suc (Suc 0)) peer_late [] shim_req1)))"
    by (simp only: p2) simp
  note t = xclPollCompletion_ignores_max_and_timeout [of peer_late 1 1 1000 shim_req1]
  have "xclPollCompletion peer_late 1 1 1000 shim_req1 =
      Some (int (length (fst (poll_passes (Suc (Suc 0)) peer_late [] shim_req1))),
            fst (poll_passes (Suc (Suc 0)) peer_late [] shim_req1),
            snd (poll_passes (Suc (Suc 0)) peer_late [] shim_req1))"
    using t before after by blast
  then show "xclPollCompletion peer_late 1 1 1000 shim_req1 =
     Some (1, [(0xB0, 8)],
           shim_req1\<lparr>sent := [xclPollCompletion_RPC_CALL 7 [(0x100, 8)], xclPollCompletion_RPC_CALL 7 [(0x100, 8)]],
             mReqList := []\<rparr>)"
    by (simp only: p2) simp
qed

text \<open>
  C1 as stated fails twice. With \<^verbatim>\<open>min = 1\<close>, \<^verbatim>\<open>max = 1\<close> and five completed
  requests the call returns 5 completions, more than \<^verbatim>\<open>max\<close>. With \<^verbatim>\<open>min = 3\<close>
  and only two requests that ever complete, the call does not return, whatever the
  timeout.
\<close>

theorem xclPollCompletion_exceeds_max_and_hangs:
  "xclPollCompletion peer_ack 1 1 1000 shim_reqs =
     Some (5, [(0xA0, 1), (0xA1, 1), (0xA2, 1), (0xA3, 1), (0xA4, 1)],
           shim_reqs\<lparr>mReqList := [],
             sent := [xclPollCompletion_RPC_CALL 0 [(0x100, 8)], xclPollCompletion_RPC_CALL 1 [(0x200, 8)],
                      xclPollCompletion_RPC_CALL 2 [(0x300, 8)], xclPollCompletion_RPC_CALL 3 [(0x400, 8)],
                      xclPollCompletion_RPC_CALL 4 [(0x500, 8)]]\<rparr>)
   \<and> xclPollCompletion peer_first2 3 4 1000 shim_reqs = None"
proof
  have pp: "poll_pass peer_ack (mReqList shim_reqs) [] [] shim_reqs =
      ([], [(0xA0, 1), (0xA1, 1), (0xA2, 1), (0xA3, 1), (0xA4, 1)],
       shim_reqs\<lparr>sent := [xclPollCompletion_RPC_CALL 0 [(0x100, 8)], xclPollCompletion_RPC_CALL 1 [(0x200, 8)],
                      xclPollCompletion_RPC_CALL 2 [(0x300, 8)], xclPollCompletion_RPC_CALL 3 [(0x400, 8)],
                      xclPollCompletion_RPC_CALL 4 [(0x500, 8)]]\<rparr>)"
    by (simp add: RPC_CALL_def peer_ack_def shim_reqs_def shim_open_def shim0_def)
  have "poll_loop peer_ack 1 [] shim_reqs =
      Some ([(0xA0, 1), (0xA1, 1), (0xA2, 1), (0xA3, 1), (0xA4, 1)],
       shim_reqs\<lparr>sent := [xclPollCompletion_RPC_CALL 0 [(0x100, 8)], xclPollCompletion_RPC_CALL 1 [(0x200, 8)],
                      xclPollCompletion_RPC_CALL 2 [(0x300, 8)], xclPollCompletion_RPC_CALL 3 [(0x400, 8)],
                      xclPollCompletion_RPC_CALL 4 [(0x500, 8)]], mReqList := []\<rparr>)"
    by (rule poll_loop_one_pass [OF _ pp]) simp_all
  then show "xclPollCompletion peer_ack 1 1 1000 shim_reqs =
     Some (5, [(0xA0, 1), (0xA1, 1), (0xA2, 1), (0xA3, 1), (0xA4, 1)],
           shim_reqs\<lparr>mReqList := [],
             sent := [xclPollCompletion_RPC_CALL 0 [(0x100, 8)], xclPollCompletion_RPC_CALL 1 [(0x200, 8)],
                      xclPollCompletion_RPC_CALL 2 [(0x300, 8)], xclPollCompletion_RPC_CALL 3 [(0x400, 8)],
                      xclPollCompletion_RPC_CALL 4 [(0x500, 8)]]\<rparr>)"
    by (simp add: xclPollCompletion_def shim_reqs_def)
next
  have "poll_loop peer_first2 3 [] shim_reqs = None"
    by (subst poll_loop.simps)
       (simp add: RPC_CALL_def peer_first2_def shim_reqs_def shim_open_def shim0_def poll_loop_stuck)
  then show "xclPollCompletion peer_first2 3 4 1000 shim_reqs = None"
    by (simp add: xclPollCompletion_def)
qed

subsection \<open>Chunked transfers\<close>

lemma unat_ucast_u32_u64: "unat (ucast (w :: u32) :: u64) = unat w"
proof -
  have "unat w < 2 ^ 32" using unsigned_less [of w, where 'a = nat] by simp
  then have "unat w < 2 ^ 64" by simp
  then show ?thesis by (simp add: unsigned_ucast_eq take_bit_nat_eq_self)
qed

lemma ucast_less_iff: "(ucast (pb :: u32) < (sz :: u64)) = (unat pb < unat sz)"
  by (simp add: word_less_nat_alt unat_ucast_u32_u64)

lemma copy_loop_zero:
  assumes r: "copy_loop p msg M sz pb s = Some y"
  shows "M = 0 \<longrightarrow> unat sz \<le> unat pb"
proof (rule copy_loop.raw_induct
    [where P = "\<lambda>p msg M sz pb s y. M = 0 \<longrightarrow> unat sz \<le> unat pb", OF _ r])
  fix f :: "peer \<Rightarrow> (u32 \<Rightarrow> u32 \<Rightarrow> rpc) \<Rightarrow> u32 \<Rightarrow> u64 \<Rightarrow> u32 \<Rightarrow> 'a CpuemShim \<Rightarrow> 'a CpuemShim option"
    and p msg M sz pb s y
  assume IH: "\<And>p msg M sz pb s y. f p msg M sz pb s = Some y \<Longrightarrow> M = 0 \<longrightarrow> unat sz \<le> unat pb"
    and step: "(if ucast pb < sz
        then let c_size = if sz - ucast pb < ucast M then ucast (sz - ucast pb) else M
             in Let (snd (RPC_CALL p (msg pb c_size) s)) (f p msg M sz (pb + c_size))
        else Some s) = Some y"
  show "M = 0 \<longrightarrow> unat sz \<le> unat pb"
  proof (intro impI, rule ccontr)
    assume m: "M = 0" and "\<not> unat sz \<le> unat pb"
    then have lt: "ucast pb < sz" by (simp add: ucast_less_iff)
    with step m have "f p msg 0 sz pb (snd (RPC_CALL p (msg pb 0) s)) = Some y"
      by (simp add: Let_def)
    from IH [OF this] lt show False by (simp add: ucast_less_iff)
  qed
qed

lemma copy_loop_wide:
  assumes r: "copy_loop p msg M sz pb s = Some y"
  shows "unat sz < 2 ^ 32"
proof (rule copy_loop.raw_induct [where P = "\<lambda>p msg M sz pb s y. unat sz < 2 ^ 32", OF _ r])
  fix f :: "peer \<Rightarrow> (u32 \<Rightarrow> u32 \<Rightarrow> rpc) \<Rightarrow> u32 \<Rightarrow> u64 \<Rightarrow> u32 \<Rightarrow> 'a CpuemShim \<Rightarrow> 'a CpuemShim option"
    and p msg M sz pb s y
  assume IH: "\<And>p msg M sz pb s y. f p msg M sz pb s = Some y \<Longrightarrow> unat sz < 2 ^ 32"
    and step: "(if ucast pb < sz
        then let c_size = if sz - ucast pb < ucast M then ucast (sz - ucast pb) else M
             in Let (snd (RPC_CALL p (msg pb c_size) s)) (f p msg M sz (pb + c_size))
        else Some s) = Some y"
  show "unat sz < 2 ^ 32"
  proof (rule ccontr)
    assume "\<not> unat sz < 2 ^ 32"
    then have w: "2 ^ 32 \<le> unat sz" by simp
    have "unat pb < 2 ^ 32" using unsigned_less [of pb, where 'a = nat] by simp
    then have "ucast pb < sz" using w by (simp add: ucast_less_iff)
    with step have "\<exists>pb' s'. f p msg M sz pb' s' = Some y"
      by (auto simp: Let_def)
    then obtain pb' s' where "f p msg M sz pb' s' = Some y" by blast
    from IH [OF this] w show False by simp
  qed
qed

lemma unat_ucast_u64_u32: "unat (x :: u64) < 2 ^ 32 \<Longrightarrow> unat (ucast x :: u32) = unat x"
  by (simp add: unsigned_ucast_eq take_bit_nat_eq_self)

lemma copy_loop_done:
  "unat sz \<le> unat pb \<Longrightarrow> copy_loop p msg M sz pb s = Some s"
  by (subst copy_loop.simps) (simp add: ucast_less_iff)

lemma copy_loop_step:
  assumes "unat pb < unat sz"
  shows "copy_loop p msg M sz pb s =
         copy_loop p msg M sz
           (pb + (if unat sz - unat pb < unat M then ucast (sz - ucast pb) else M))
           (s\<lparr>sent := sent s @ [msg pb (if unat sz - unat pb < unat M then ucast (sz - ucast pb) else M)]\<rparr>)"
proof -
  have le: "(ucast pb :: u64) \<le> sz"
    using assms by (simp add: word_le_nat_alt unat_ucast_u32_u64)
  have sub: "unat (sz - ucast pb) = unat sz - unat pb"
    using unat_sub [OF le] by (simp add: unat_ucast_u32_u64)
  have c: "(sz - ucast pb < ucast M) = (unat sz - unat pb < unat M)"
    by (simp add: word_less_nat_alt sub unat_ucast_u32_u64)
  show ?thesis
    by (subst copy_loop.simps) (simp add: ucast_less_iff assms c RPC_CALL_def Let_def)
qed

lemma chunk_count_lt: 
  assumes "0 < (M::nat)" "k < (S + M - 1) div M" shows "k * M < S"
proof -
  have "Suc k \<le> (S + M - 1) div M" using assms by simp
  then have "Suc k * M \<le> S + M - 1" using assms(1)
    by (simp add: less_eq_div_iff_mult_less_eq)
  then show ?thesis using assms(1) by simp
qed

lemma chunk_count_ge:
  assumes "0 < (M::nat)" shows "S \<le> (S + M - 1) div M * M"
proof -
  have "(S + M - 1) mod M < M" using assms by simp
  moreover have "(S + M - 1) div M * M + (S + M - 1) mod M = S + M - 1" by simp
  ultimately show ?thesis by linarith
qed

lemma copy_loop_chunks_from:
  fixes sz :: u64 and M pb :: u32
  assumes M: "0 < unat M" and S: "unat sz < 2 ^ 32"
  shows "k \<le> (unat sz + unat M - 1) div unat M \<Longrightarrow> unat pb = min (unat sz) (k * unat M) \<Longrightarrow>
         copy_loop p msg M sz pb s =
         Some (s\<lparr>sent := sent s @ map (\<lambda>i. msg (of_nat (i * unat M)) (of_nat (min (unat M) (unat sz - i * unat M))))
                   [k..<(unat sz + unat M - 1) div unat M]\<rparr>)"
proof (induction "(unat sz + unat M - 1) div unat M - k" arbitrary: k pb s)
  case 0
  then have "k = (unat sz + unat M - 1) div unat M" by simp
  then have "unat sz \<le> k * unat M" using chunk_count_ge [OF M] by simp
  then have "unat pb = unat sz" using 0 by simp
  then show ?case using 0 by (simp add: copy_loop_done)
next
  case (Suc d)
  let ?n = "(unat sz + unat M - 1) div unat M"
  let ?c = "min (unat M) (unat sz - k * unat M)"
  have kn: "k < ?n" using Suc by simp
  have lt: "k * unat M < unat sz" using chunk_count_lt [OF M kn] .
  then have pb: "unat pb = k * unat M" using Suc.prems by simp
  have pbw: "pb = of_nat (k * unat M)"
    using of_nat_unat [of pb, where 'a = "32 word"] by (simp only: pb ucast_id)
  have pblt: "unat pb < unat sz" using pb lt by simp
  let ?cw = "(if unat sz - unat pb < unat M then ucast (sz - ucast pb) else M) :: u32"
  have le: "(ucast pb :: u64) \<le> sz"
    using pblt by (simp add: word_le_nat_alt unat_ucast_u32_u64)
  have sub: "unat (sz - ucast pb) = unat sz - unat pb"
    using unat_sub [OF le] by (simp add: unat_ucast_u32_u64)
  have cu: "unat ?cw = ?c"
  proof (cases "unat sz - unat pb < unat M")
    case True
    have "unat (sz - ucast pb) < 2 ^ 32" using sub S by simp
    then have "unat (ucast (sz - ucast pb) :: u32) = unat sz - unat pb"
      using sub by (simp add: unat_ucast_u64_u32)
    with True show ?thesis by (simp add: pb)
  next
    case False
    then show ?thesis by (simp add: pb)
  qed
  have cw: "?cw = of_nat ?c"
    using of_nat_unat [of ?cw, where 'a = "32 word"] by (simp only: cu ucast_id)
  have "unat pb + unat ?cw \<le> unat sz"
    using lt by (simp only: cu, simp only: pb; auto simp add: min_def)
  then have "unat pb + unat ?cw < 2 ^ LENGTH(32)" using S by simp
  then have "unat (pb + ?cw) = unat pb + unat ?cw"
    by (rule unat_add_lem [THEN iffD1])
  then have nxt: "unat (pb + ?cw) = min (unat sz) (Suc k * unat M)"
    using lt by (simp only: cu, simp only: pb; auto simp add: min_def)
  have d: "d = ?n - Suc k" using Suc by simp
  have k1: "Suc k \<le> ?n" using kn by simp
  have upt: "[k..<?n] = k # [Suc k..<?n]" using kn by (simp add: upt_conv_Cons)
  show ?case
    apply (subst copy_loop_step [OF pblt])
    apply (subst Suc.hyps(1) [OF d k1 nxt])
    apply (subst upt)
    apply (simp only: cw)
    apply (simp del: of_nat_mult add: pbw [symmetric])
    done
qed

lemma chunks_length: "length (chunks M S) = (S + M - 1) div M"
  by (simp add: chunks_def)

lemma chunks_nth: "i < length (chunks M S) \<Longrightarrow> chunks M S ! i = (i * M, min M (S - i * M))"
  by (simp add: chunks_def)

lemma chunks_full:
  assumes "0 < M" "Suc i < length (chunks M S)"
  shows "snd (chunks M S ! i) = M"
proof -
  have "Suc i * M < S" using chunk_count_lt [OF assms(1), of "Suc i" S] assms(2) by (simp add: chunks_length)
  then show ?thesis using assms by (simp add: chunks_nth min_def)
qed

lemma chunks_pos:
  assumes "0 < M" "i < length (chunks M S)"
  shows "0 < snd (chunks M S ! i) \<and> snd (chunks M S ! i) \<le> M \<and> fst (chunks M S ! i) = i * M"
proof -
  have "i * M < S" using chunk_count_lt [OF assms(1), of i S] assms(2) by (simp add: chunks_length)
  then show ?thesis using assms by (simp add: chunks_nth min_def)
qed

lemma chunks_next:
  assumes "0 < M" "Suc i < length (chunks M S)"
  shows "fst (chunks M S ! Suc i) = fst (chunks M S ! i) + snd (chunks M S ! i)"
  using chunks_full [OF assms] chunks_pos [OF assms(1), of i S] chunks_pos [OF assms(1), of "Suc i" S] assms(2)
  by simp

lemma chunks_sum_from:
  assumes M: "0 < M"
  shows "k \<le> (S + M - 1) div M \<Longrightarrow>
         (\<Sum>i\<leftarrow>[k..<(S + M - 1) div M]. min M (S - i * M)) = S - min S (k * M)"
proof (induction "(S + M - 1) div M - k" arbitrary: k)
  case 0
  then have "k = (S + M - 1) div M" by simp
  then have "S \<le> k * M" using chunk_count_ge [OF M] by simp
  then show ?case using 0 by simp
next
  case (Suc d)
  let ?n = "(S + M - 1) div M"
  have kn: "k < ?n" using Suc by simp
  have lt: "k * M < S" using chunk_count_lt [OF M kn] .
  have upt: "[k..<?n] = k # [Suc k..<?n]" using kn by (simp add: upt_conv_Cons)
  have "(\<Sum>i\<leftarrow>[Suc k..<?n]. min M (S - i * M)) = S - min S (Suc k * M)"
    using Suc kn by simp
  then show ?case unfolding upt using lt by (auto simp add: min_def)
qed

lemma chunks_sum: "0 < M \<Longrightarrow> sum_list (map snd (chunks M S)) = S"
  using chunks_sum_from [of M 0 S] by (simp add: chunks_def comp_def)

lemma ucast_of_nat_u32_u64: "n < 2 ^ 32 \<Longrightarrow> (ucast (of_nat n :: u32) :: u64) = of_nat n"
proof -
  assume "n < 2 ^ 32"
  then have "unat (of_nat n :: u32) = n" by (simp add: unat_of_nat)
  then show ?thesis by (metis of_nat_unat)
qed

lemma copy_loop_chunks:
  fixes sz :: u64 and M :: u32 and mk :: "u64 \<Rightarrow> u32 \<Rightarrow> rpc"
  assumes M: "0 < M" and S: "unat sz < 2 ^ 32"
  shows "copy_loop p (\<lambda>pb c. mk (ucast pb) c) M sz 0 s =
         Some (s\<lparr>sent := sent s @ map (\<lambda>(off, c). mk (of_nat off) (of_nat c)) (chunks (unat M) (unat sz))\<rparr>)"
proof -
  have M': "0 < unat M" using M by (simp add: unat_gt_0)
  have eq: "map (\<lambda>i. mk (ucast (of_nat (i * unat M) :: u32)) (of_nat (min (unat M) (unat sz - i * unat M))))
              [0..<(unat sz + unat M - 1) div unat M]
          = map (\<lambda>(off, c). mk (of_nat off) (of_nat c)) (chunks (unat M) (unat sz))"
    unfolding chunks_def map_map
  proof (rule map_cong [OF refl])
    fix i assume "i \<in> set [0..<(unat sz + unat M - 1) div unat M]"
    then have "i * unat M < unat sz" using chunk_count_lt [OF M'] by simp
    then have "i * unat M < 2 ^ 32" using S by simp
    then show "mk (ucast (of_nat (i * unat M) :: u32)) (of_nat (min (unat M) (unat sz - i * unat M)))
       = ((\<lambda>(off, c). mk (of_nat off) (of_nat c)) \<circ> (\<lambda>i. (i * unat M, min (unat M) (unat sz - i * unat M)))) i"
      by (simp del: of_nat_mult add: ucast_of_nat_u32_u64)
  qed
  have "copy_loop p (\<lambda>pb c. mk (ucast pb) c) M sz 0 s =
         Some (s\<lparr>sent := sent s @
           map (\<lambda>i. mk (ucast (of_nat (i * unat M) :: u32)) (of_nat (min (unat M) (unat sz - i * unat M))))
              [0..<(unat sz + unat M - 1) div unat M]\<rparr>)"
    using copy_loop_chunks_from [OF M' S, of 0 0 p "\<lambda>pb c. mk (ucast pb) c" s]
    by simp
  then show ?thesis by (simp only: eq)
qed

lemma xclCopyBufferHost2Device_chunks:
  assumes "0 < message_size s" and "unat sz < 2 ^ 32"
  shows "xclCopyBufferHost2Device ext p dest src sz seek s =
     (let s1 = (if sock s = None then launchTempProcess ext p s else s)
      in Some (sz, s1\<lparr>sent := sent s1 @
            map (\<lambda>(off, c). xclCopyBufferHost2Device_RPC_CALL (dest + seek + of_nat off)
                                 (src + seek + of_nat off) (of_nat c) seek 0)
              (chunks (unat (message_size s)) (unat sz))\<rparr>))"
  using assms
  by (simp add: xclCopyBufferHost2Device_def Let_def launchTempProcess_frame
      copy_loop_chunks [where mk = "\<lambda>a c. xclCopyBufferHost2Device_RPC_CALL (dest + seek + a) (src + seek + a) c seek 0"])

lemma xclCopyBufferDevice2Host_chunks:
  assumes "0 < message_size s" and "unat sz < 2 ^ 32"
  shows "xclCopyBufferDevice2Host ext p dest src sz skip s =
     (let s1 = (if sock s = None then launchTempProcess ext p s else s)
      in Some (sz, s1\<lparr>sent := sent s1 @
            map (\<lambda>(off, c). xclCopyBufferDevice2Host_RPC_CALL (dest + skip + of_nat off)
                                 (src + skip + of_nat off) (of_nat c) skip 0)
              (chunks (unat (message_size s)) (unat sz))\<rparr>))"
  using assms
  by (simp add: xclCopyBufferDevice2Host_def Let_def launchTempProcess_frame
      copy_loop_chunks [where mk = "\<lambda>a c. xclCopyBufferDevice2Host_RPC_CALL (dest + skip + a) (src + skip + a) c skip 0"])

lemma copy_loop_None_wide: "2 ^ 32 \<le> unat sz \<Longrightarrow> copy_loop p msg M sz pb s = None"
  using copy_loop_wide [of p msg M sz pb s] by (cases "copy_loop p msg M sz pb s") auto

lemma copy_loop_None_zero: "unat pb < unat sz \<Longrightarrow> copy_loop p msg 0 sz pb s = None"
  using copy_loop_zero [of p msg 0 sz pb s] by (cases "copy_loop p msg 0 sz pb s") auto


lemma RPC_CALL_state: "snd (RPC_CALL p m s) = snd (RPC_CALL p' m s)"
  by (simp add: RPC_CALL_def)

lemma copy_loop_peer_Some:
  assumes r: "copy_loop p msg M sz pb s = Some y"
  shows "\<forall>p'. copy_loop p' msg M sz pb s = Some y"
proof (rule copy_loop.raw_induct
    [where P = "\<lambda>p msg M sz pb s y. \<forall>p'. copy_loop p' msg M sz pb s = Some y", OF _ r])
  fix f :: "peer \<Rightarrow> (u32 \<Rightarrow> u32 \<Rightarrow> rpc) \<Rightarrow> u32 \<Rightarrow> u64 \<Rightarrow> u32 \<Rightarrow> 'a CpuemShim \<Rightarrow> 'a CpuemShim option"
    and p msg M sz pb s y
  assume IH: "\<And>p msg M sz pb s y. f p msg M sz pb s = Some y \<Longrightarrow>
                 \<forall>p'. copy_loop p' msg M sz pb s = Some y"
    and step: "(if ucast pb < sz
        then let c_size = if sz - ucast pb < ucast M then ucast (sz - ucast pb) else M
             in Let (snd (RPC_CALL p (msg pb c_size) s)) (f p msg M sz (pb + c_size))
        else Some s) = Some y"
  show "\<forall>p'. copy_loop p' msg M sz pb s = Some y"
  proof
    fix p'
    show "copy_loop p' msg M sz pb s = Some y"
    proof (cases "ucast pb < sz")
      case True
      let ?c = "if sz - ucast pb < ucast M then ucast (sz - ucast pb) else M"
      from step True have "f p msg M sz (pb + ?c) (snd (RPC_CALL p (msg pb ?c) s)) = Some y"
        by (simp add: Let_def)
      from IH [OF this] have "copy_loop p' msg M sz (pb + ?c) (snd (RPC_CALL p (msg pb ?c) s)) = Some y"
        by blast
      then have "copy_loop p' msg M sz (pb + ?c) (snd (RPC_CALL p' (msg pb ?c) s)) = Some y"
        by (simp only: RPC_CALL_state [of p _ _ p'])
      then show ?thesis
        using True by (subst copy_loop.simps) (simp add: Let_def)
    next
      case False
      with step have "y = s" by simp
      then show ?thesis using False by (subst copy_loop.simps) simp
    qed
  qed
qed

lemma copy_loop_peer: "copy_loop p msg M sz pb s = copy_loop p' msg M sz pb s"
proof (cases "copy_loop p msg M sz pb s")
  case None
  show ?thesis
  proof (cases "copy_loop p' msg M sz pb s")
    case None
    with \<open>copy_loop p msg M sz pb s = None\<close> show ?thesis by simp
  next
    case (Some y)
    from copy_loop_peer_Some [OF this] \<open>copy_loop p msg M sz pb s = None\<close> show ?thesis by simp
  qed
next
  case (Some y)
  from copy_loop_peer_Some [OF this] Some show ?thesis by simp
qed

text \<open>
  C2 (as the code has it). The transfer loops do not look at the outcome of a chunk: the
  result of \<^verbatim>\<open>xclCopyBufferHost2Device\<close> and of \<^verbatim>\<open>xclCopyBufferDevice2Host\<close> does
  not depend on what the peer answers, and whenever a call returns, it returns the full
  requested size. For a message size \<open>M\<close> above 0 and a transfer of \<open>S\<close> bytes below
  4 GiB the call does return, after forwarding every chunk of the transfer: the messages
  it has added are those of \<open>chunks M S\<close>, in order, each with the destination and
  source addresses advanced by the chunk's offset and with the chunk's size; chunk \<open>i\<close>
  starts at offset \<open>i * M\<close>, has between 1 and \<open>M\<close> bytes, and the sizes add up to
  \<open>S\<close>.
\<close>

theorem copy_forwards_all_chunks_whatever_peer:
  "xclCopyBufferHost2Device ext p dest src sz seek s =
     xclCopyBufferHost2Device ext p' dest src sz seek s
   \<and> xclCopyBufferDevice2Host ext p dest src sz seek s =
       xclCopyBufferDevice2Host ext p' dest src sz seek s
   \<and> (\<forall>r. xclCopyBufferHost2Device ext p dest src sz seek s = Some r \<longrightarrow> fst r = sz)
   \<and> (\<forall>r. xclCopyBufferDevice2Host ext p dest src sz seek s = Some r \<longrightarrow> fst r = sz)
   \<and> (0 < message_size s \<longrightarrow> unat sz < 2 ^ 32 \<longrightarrow>
        xclCopyBufferHost2Device ext p dest src sz seek s =
          Some (sz, (if sock s = None then launchTempProcess ext p s else s)
              \<lparr>sent := sent (if sock s = None then launchTempProcess ext p s else s) @
                 map (\<lambda>(off, c). xclCopyBufferHost2Device_RPC_CALL (dest + seek + of_nat off)
                                      (src + seek + of_nat off) (of_nat c) seek 0)
                   (chunks (unat (message_size s)) (unat sz))\<rparr>)
        \<and> xclCopyBufferDevice2Host ext p dest src sz seek s =
          Some (sz, (if sock s = None then launchTempProcess ext p s else s)
              \<lparr>sent := sent (if sock s = None then launchTempProcess ext p s else s) @
                 map (\<lambda>(off, c). xclCopyBufferDevice2Host_RPC_CALL (dest + seek + of_nat off)
                                      (src + seek + of_nat off) (of_nat c) seek 0)
                   (chunks (unat (message_size s)) (unat sz))\<rparr>)
        \<and> (\<forall>i. i < length (chunks (unat (message_size s)) (unat sz)) \<longrightarrow>
              fst (chunks (unat (message_size s)) (unat sz) ! i) = i * unat (message_size s)
              \<and> 0 < snd (chunks (unat (message_size s)) (unat sz) ! i)
              \<and> snd (chunks (unat (message_size s)) (unat sz) ! i) \<le> unat (message_size s))
        \<and> sum_list (map snd (chunks (unat (message_size s)) (unat sz))) = unat sz)"
proof (intro conjI allI impI)
  show "xclCopyBufferHost2Device ext p dest src sz seek s =
     xclCopyBufferHost2Device ext p' dest src sz seek s"
    using launchTempProcess_peer [of ext p s p']
    by (simp add: xclCopyBufferHost2Device_def Let_def copy_loop_peer [of p _ _ _ _ _ p'])
  show "xclCopyBufferDevice2Host ext p dest src sz seek s =
       xclCopyBufferDevice2Host ext p' dest src sz seek s"
    using launchTempProcess_peer [of ext p s p']
    by (simp add: xclCopyBufferDevice2Host_def Let_def copy_loop_peer [of p _ _ _ _ _ p'])
next
  fix r assume "xclCopyBufferHost2Device ext p dest src sz seek s = Some r"
  then show "fst r = sz" by (auto simp add: xclCopyBufferHost2Device_def Let_def)
next
  fix r assume "xclCopyBufferDevice2Host ext p dest src sz seek s = Some r"
  then show "fst r = sz" by (auto simp add: xclCopyBufferDevice2Host_def Let_def)
next
  assume h: "0 < message_size s" "unat sz < 2 ^ 32"
  show "xclCopyBufferHost2Device ext p dest src sz seek s =
          Some (sz, (if sock s = None then launchTempProcess ext p s else s)
              \<lparr>sent := sent (if sock s = None then launchTempProcess ext p s else s) @
                 map (\<lambda>(off, c). xclCopyBufferHost2Device_RPC_CALL (dest + seek + of_nat off)
                                      (src + seek + of_nat off) (of_nat c) seek 0)
                   (chunks (unat (message_size s)) (unat sz))\<rparr>)"
    by (simp add: xclCopyBufferHost2Device_chunks [OF h] Let_def)
  show "xclCopyBufferDevice2Host ext p dest src sz seek s =
          Some (sz, (if sock s = None then launchTempProcess ext p s else s)
              \<lparr>sent := sent (if sock s = None then launchTempProcess ext p s else s) @
                 map (\<lambda>(off, c). xclCopyBufferDevice2Host_RPC_CALL (dest + seek + of_nat off)
                                      (src + seek + of_nat off) (of_nat c) seek 0)
                   (chunks (unat (message_size s)) (unat sz))\<rparr>)"
    by (simp add: xclCopyBufferDevice2Host_chunks [OF h] Let_def)
  have M: "0 < unat (message_size s)" using h(1) by (simp add: unat_gt_0)
  show "sum_list (map snd (chunks (unat (message_size s)) (unat sz))) = unat sz"
    by (rule chunks_sum [OF M])
  fix i assume "i < length (chunks (unat (message_size s)) (unat sz))"
  with chunks_pos [OF M]
  show "fst (chunks (unat (message_size s)) (unat sz) ! i) = i * unat (message_size s)"
    and "0 < snd (chunks (unat (message_size s)) (unat sz) ! i)"
    and "snd (chunks (unat (message_size s)) (unat sz) ! i) \<le> unat (message_size s)"
    by simp_all
qed

text \<open>
  A transfer of 10 bytes from the device in chunks of 4, with a peer that acknowledges
  nothing: the three chunks are forwarded and 10 is returned, as with a peer that
  acknowledges everything.
\<close>

theorem copy_forwards_all_chunks_example:
  "xclCopyBufferDevice2Host ext0 peer_nak 0x2000 0x1000 10 0 shim_small =
     Some (10, shim_small\<lparr>sent :=
        [xclCopyBufferDevice2Host_RPC_CALL 0x2000 0x1000 4 0 0,
         xclCopyBufferDevice2Host_RPC_CALL 0x2004 0x1004 4 0 0,
         xclCopyBufferDevice2Host_RPC_CALL 0x2008 0x1008 2 0 0]\<rparr>)
   \<and> xclCopyBufferDevice2Host ext0 peer_nak 0x2000 0x1000 10 0 shim_small =
       xclCopyBufferDevice2Host ext0 peer_ack 0x2000 0x1000 10 0 shim_small"
proof -
  have h: "0 < message_size shim_small" "unat (10 :: u64) < 2 ^ 32"
    and c: "sock shim_small \<noteq> None" "sent shim_small = []" "unat (message_size shim_small) = 4"
    by (simp_all add: shim_small_def shim_open_def shim0_def)
  have n: "chunks 4 10 = [(0, 4), (4, 4), (8, 2)]" by (simp add: chunks_def upt_conv_Cons)
  note t = copy_forwards_all_chunks_whatever_peer [where ext = ext0 and p = peer_nak
      and p' = peer_ack and dest = "0x2000" and src = "0x1000" and seek = 0
      and sz = 10 and s = shim_small]
  have a: "xclCopyBufferDevice2Host ext0 peer_nak 0x2000 0x1000 10 0 shim_small =
          Some (10, (if sock shim_small = None then launchTempProcess ext0 peer_nak shim_small else shim_small)
              \<lparr>sent := sent (if sock shim_small = None then launchTempProcess ext0 peer_nak shim_small
                             else shim_small) @
                 map (\<lambda>(off, c). xclCopyBufferDevice2Host_RPC_CALL (0x2000 + 0 + of_nat off)
                                      (0x1000 + 0 + of_nat off) (of_nat c) 0 0)
                   (chunks (unat (message_size shim_small)) (unat (10 :: u64)))\<rparr>)"
    using t h by blast
  have b: "xclCopyBufferDevice2Host ext0 peer_nak 0x2000 0x1000 10 0 shim_small =
       xclCopyBufferDevice2Host ext0 peer_ack 0x2000 0x1000 10 0 shim_small"
    using t by blast
  from a c n have a': "xclCopyBufferDevice2Host ext0 peer_nak 0x2000 0x1000 10 0 shim_small =
     Some (10, shim_small\<lparr>sent :=
        [xclCopyBufferDevice2Host_RPC_CALL 0x2000 0x1000 4 0 0,
         xclCopyBufferDevice2Host_RPC_CALL 0x2004 0x1004 4 0 0,
         xclCopyBufferDevice2Host_RPC_CALL 0x2008 0x1008 2 0 0]\<rparr>)"
    by simp
  show ?thesis by (intro conjI) (rule a', rule b)
qed

text \<open>
  C2 as stated fails: with a peer that acknowledges nothing, a transfer of 5 bytes in
  chunks of 4 still forwards both chunks and returns 5.
\<close>

theorem copy_continues_after_failed_chunk:
  "ack (peer_nak 0 (xclCopyBufferHost2Device_RPC_CALL 0x1000 0x2000 4 0 0)) = False
   \<and> xclCopyBufferHost2Device ext0 peer_nak 0x1000 0x2000 5 0 shim_small =
     Some (5, shim_small\<lparr>sent :=
        [xclCopyBufferHost2Device_RPC_CALL 0x1000 0x2000 4 0 0,
         xclCopyBufferHost2Device_RPC_CALL 0x1004 0x2004 1 0 0]\<rparr>)"
proof -
  have "0 < message_size shim_small" and "unat (5 :: u64) < 2 ^ 32" and "sock shim_small \<noteq> None"
    by (simp_all add: shim_small_def shim_open_def shim0_def)
  from xclCopyBufferHost2Device_chunks [OF this(1,2), where ext = ext0 and p = peer_nak
      and dest = "0x1000" and src = "0x2000" and seek = 0] this(3)
  show ?thesis
    by (simp add: chunks_def upt_conv_Cons peer_nak_def shim_small_def shim_open_def shim0_def)
qed

text \<open>
  C6, where the code departs from it. \<^verbatim>\<open>processed_bytes\<close> is a 32-bit counter compared
  with a 64-bit size: for a transfer of 4 GiB (here with the default message size) it can
  never reach the size, so the loop forwards chunks for ever, and the call returns no
  value. The same happens for any non-empty transfer when the configured message size
  is 0.
\<close>

theorem copy_never_returns_example:
  "message_size shim_open = 0x800000
   \<and> xclCopyBufferHost2Device ext0 peer_ack 0 0 0x100000000 0 shim_open = None
   \<and> xclCopyBufferDevice2Host ext0 peer_ack 0 0 0x100000000 0 shim_open = None
   \<and> xclCopyBufferHost2Device ext0 peer_ack 0 0 1 0 (shim_open\<lparr>message_size := 0\<rparr>) = None"
  by (simp add: xclCopyBufferHost2Device_def xclCopyBufferDevice2Host_def shim_open_def shim0_def
      copy_loop_None_wide copy_loop_None_zero)

text \<open>
  The part of C6 that the code keeps: for a message size \<open>M\<close> above 0 and a transfer
  of \<open>S\<close> bytes below 4 GiB, both functions return \<open>S\<close> and forward exactly the
  chunks of \<open>chunks M S\<close>, in that order. Every chunk but the last has size \<open>M\<close>, the
  last has between 1 and \<open>M\<close> bytes, chunk \<open>i\<close> starts at offset \<open>i * M\<close>, each chunk
  starts where the one before it ends, and the sizes add up to \<open>S\<close>.
\<close>

theorem copy_chunking_in_range:
  assumes "0 < message_size s" and "unat sz < 2 ^ 32"
  shows "xclCopyBufferHost2Device ext p dest src sz seek s =
           Some (sz, (if sock s = None then launchTempProcess ext p s else s)
             \<lparr>sent := sent (if sock s = None then launchTempProcess ext p s else s) @
                map (\<lambda>(off, c). xclCopyBufferHost2Device_RPC_CALL (dest + seek + of_nat off)
                                     (src + seek + of_nat off) (of_nat c) seek 0)
                  (chunks (unat (message_size s)) (unat sz))\<rparr>)
       \<and> xclCopyBufferDevice2Host ext p dest src sz seek s =
           Some (sz, (if sock s = None then launchTempProcess ext p s else s)
             \<lparr>sent := sent (if sock s = None then launchTempProcess ext p s else s) @
                map (\<lambda>(off, c). xclCopyBufferDevice2Host_RPC_CALL (dest + seek + of_nat off)
                                     (src + seek + of_nat off) (of_nat c) seek 0)
                  (chunks (unat (message_size s)) (unat sz))\<rparr>)
       \<and> (\<forall>i. Suc i < length (chunks (unat (message_size s)) (unat sz)) \<longrightarrow>
              snd (chunks (unat (message_size s)) (unat sz) ! i) = unat (message_size s)
              \<and> fst (chunks (unat (message_size s)) (unat sz) ! Suc i) =
                  fst (chunks (unat (message_size s)) (unat sz) ! i)
                  + snd (chunks (unat (message_size s)) (unat sz) ! i))
       \<and> (\<forall>i. i < length (chunks (unat (message_size s)) (unat sz)) \<longrightarrow>
              fst (chunks (unat (message_size s)) (unat sz) ! i) = i * unat (message_size s)
              \<and> 0 < snd (chunks (unat (message_size s)) (unat sz) ! i)
              \<and> snd (chunks (unat (message_size s)) (unat sz) ! i) \<le> unat (message_size s))
       \<and> sum_list (map snd (chunks (unat (message_size s)) (unat sz))) = unat sz"
proof -
  have M: "0 < unat (message_size s)" using assms(1) by (simp add: unat_gt_0)
  show ?thesis
    using chunks_full [OF M] chunks_next [OF M] chunks_pos [OF M] chunks_sum [OF M]
    by (simp add: xclCopyBufferHost2Device_chunks [OF assms] xclCopyBufferDevice2Host_chunks [OF assms]
        Let_def)
qed

theorem copy_chunking_example:
  "xclCopyBufferHost2Device ext0 peer_ack 0x1000 0x2000 10 0 shim_small =
     Some (10, shim_small\<lparr>sent :=
        [xclCopyBufferHost2Device_RPC_CALL 0x1000 0x2000 4 0 0,
         xclCopyBufferHost2Device_RPC_CALL 0x1004 0x2004 4 0 0,
         xclCopyBufferHost2Device_RPC_CALL 0x1008 0x2008 2 0 0]\<rparr>)
   \<and> chunks 4 10 = [(0, 4), (4, 4), (8, 2)]"
proof -
  have h: "0 < message_size shim_small" "unat (10 :: u64) < 2 ^ 32"
    and c: "sock shim_small \<noteq> None" "sent shim_small = []" "unat (message_size shim_small) = 4"
    by (simp_all add: shim_small_def shim_open_def shim0_def)
  have n: "chunks 4 10 = [(0, 4), (4, 4), (8, 2)]" by (simp add: chunks_def upt_conv_Cons)
  from copy_chunking_in_range [OF h, where ext = ext0 and p = peer_ack
      and dest = "0x1000" and src = "0x2000" and seek = 0] c n
  show ?thesis by simp
qed

end
